theory Spec2Isabelle
  imports Complex_Main
begin

section \<open>Errors and configuration\<close>

text \<open>
  The exceptions the modelled Python can raise: the \<^verbatim>\<open>assert\<close> statement, an index
  outside a tensor's range, a tensor shape mismatch, and integer division by zero.
\<close>

datatype error = AssertionError | IndexError | RuntimeError | ZeroDivisionError

text \<open>
  The dataclass \<^verbatim>\<open>ModelArgs\<close> (model.py, lines 23-37), field by field. Python's
  unbounded \<^verbatim>\<open>int\<close> is \<open>int\<close>; a \<^verbatim>\<open>float\<close> is idealised as a \<open>real\<close>.
\<close>

record ModelArgs =
  dim :: int
  n_layers :: int
  n_heads :: int
  n_kv_heads :: "int option"
  vocab_size :: int
  multiple_of :: int
  ffn_dim_multiplier :: "real option"
  norm_eps :: real
  max_batch_size :: int
  max_seq_len :: int
  quant :: bool
  gpu :: bool

definition default_ModelArgs :: ModelArgs where
  "default_ModelArgs =
     \<lparr>dim = 4096, n_layers = 32, n_heads = 32, n_kv_heads = None, vocab_size = - 1,
      multiple_of = 256, ffn_dim_multiplier = None, norm_eps = 1 / 100000,
      max_batch_size = 32, max_seq_len = 2048, quant = False, gpu = False\<rparr>"

section \<open>FeedForward: the hidden dimension\<close>

text \<open>
  Python's \<^verbatim>\<open>int(x)\<close> on a float truncates toward zero.
\<close>

definition py_int :: "real \<Rightarrow> int" where
  "py_int x = (if 0 \<le> x then \<lfloor>x\<rfloor> else \<lceil>x\<rceil>)"

text \<open>
  \<^verbatim>\<open>FeedForward.__init__\<close>, lines 242-246: the three assignments to \<^verbatim>\<open>hidden_dim\<close>.
  \<^verbatim>\<open>2 * hidden_dim / 3\<close> is Python's true division; \<^verbatim>\<open>//\<close> is floor division, which
  raises on a zero divisor.
\<close>

definition FeedForward_hidden_dim :: "int \<Rightarrow> int \<Rightarrow> real option \<Rightarrow> error + int" where
  "FeedForward_hidden_dim hidden_dim mult_of multiplier =
     (let h1 = py_int (real_of_int (2 * hidden_dim) / 3);
          h2 = (case multiplier of None \<Rightarrow> h1 | Some m \<Rightarrow> py_int (m * real_of_int h1))
      in if mult_of = 0 then Inl ZeroDivisionError
         else Inr (mult_of * ((h2 + mult_of - 1) div mult_of)))"



section \<open>Tensors\<close>

text \<open>
  A tensor is a nested list, outermost axis first; a float is idealised as a \<open>real\<close>, and
  the one non-finite value the program creates on purpose, the mask's negative infinity,
  has a type of its own. The model follows the source on tensors whose axes have the
  lengths the constructors give them; where torch would raise on an index or on the shape
  of a \<^verbatim>\<open>view\<close> or \<^verbatim>\<open>index_copy\<close>, the model returns the error. An axis of length one
  is not broadcast against a longer one: a table or mask slice with a single row for a
  longer window is a shape error here, and \<^verbatim>\<open>Transformer.forward\<close> never passes one, its
  slices having one row per index.
\<close>

type_synonym vec = "real list"

datatype xreal = Fin real | NegInf

fun xadd :: "real \<Rightarrow> xreal \<Rightarrow> xreal" where
  "xadd a (Fin b) = Fin (a + b)"
| "xadd a NegInf = NegInf"

fun xexp :: "xreal \<Rightarrow> real" where
  "xexp (Fin a) = exp a"
| "xexp NegInf = 0"

definition bind_err :: "error + 'a \<Rightarrow> ('a \<Rightarrow> error + 'b) \<Rightarrow> error + 'b" where
  "bind_err r f = (case r of Inl e \<Rightarrow> Inl e | Inr x \<Rightarrow> f x)"

text \<open>
  \<^verbatim>\<open>torch.zeros\<close> with the four sizes of the cache; a negative size raises.
\<close>

definition zeros4 :: "int \<Rightarrow> int \<Rightarrow> int \<Rightarrow> int \<Rightarrow> error + real list list list list" where
  "zeros4 a b c d =
     (if a < 0 \<or> b < 0 \<or> c < 0 \<or> d < 0 then Inl RuntimeError
      else Inr (replicate (nat a) (replicate (nat b) (replicate (nat c) (replicate (nat d) 0)))))"

text \<open>
  \<^verbatim>\<open>t.index_select(axis, index)\<close> along the axis the list represents: the entries at the
  given indices, in the given order; an index outside the axis raises.
\<close>

definition index_select :: "'a list \<Rightarrow> int list \<Rightarrow> error + 'a list" where
  "index_select xs idx =
     (if \<forall>i \<in> set idx. 0 \<le> i \<and> i < int (length xs)
      then Inr (map (\<lambda>i. xs ! nat i) idx) else Inl IndexError)"

text \<open>
  \<^verbatim>\<open>self.index_copy(1, index, source)\<close> on one batch row: entry \<open>index[t]\<close> of the row
  becomes \<open>source[t]\<close>, in the order of the index list.
\<close>

fun index_copy_row :: "'a list \<Rightarrow> int list \<Rightarrow> 'a list \<Rightarrow> 'a list" where
  "index_copy_row c (p # ps) (s # ss) = index_copy_row (c[nat p := s]) ps ss"
| "index_copy_row c _ _ = c"

text \<open>
  On the whole tensor: the batch axes must agree and the source must have one entry per
  index (RuntimeError); an index outside the sequence axis raises IndexError.
\<close>

definition index_copy ::
  "'a list list \<Rightarrow> int list \<Rightarrow> 'a list list \<Rightarrow> error + 'a list list" where
  "index_copy self idx src =
     (if length src \<noteq> length self \<or> (\<exists>s \<in> set src. length s \<noteq> length idx)
      then Inl RuntimeError
      else if \<exists>c \<in> set self. \<exists>i \<in> set idx. i < 0 \<or> int (length c) \<le> i
      then Inl IndexError
      else Inr (map2 (\<lambda>c s. index_copy_row c idx s) self src))"

text \<open>
  \<^verbatim>\<open>x.view(bsz, seqlen, n, d)\<close> of a tensor whose last axis is to be cut into \<open>n\<close> heads
  of \<open>d\<close> entries each; the element counts must agree.
\<close>

definition chunks :: "nat \<Rightarrow> nat \<Rightarrow> 'a list \<Rightarrow> 'a list list" where
  "chunks n d v = map (\<lambda>h. take d (drop (h * d) v)) [0..<n]"

definition view_heads ::
  "real list list list \<Rightarrow> int \<Rightarrow> int \<Rightarrow> error + real list list list list" where
  "view_heads x n d =
     (if n < 0 \<or> d < 0 \<or> (\<exists>row \<in> set x. \<exists>v \<in> set row. int (length v) \<noteq> n * d)
      then Inl RuntimeError
      else Inr (map (map (chunks (nat n) (nat d))) x))"

section \<open>RMSNorm\<close>

record RMSNorm =
  eps :: real
  weight :: vec

definition RMSNorm_norm :: "RMSNorm \<Rightarrow> vec \<Rightarrow> vec" where
  "RMSNorm_norm n x =
     map (\<lambda>xi. xi * (1 / sqrt (sum_list (map (\<lambda>y. y ^ 2) x) / real (length x) + eps n))) x"

definition RMSNorm_forward :: "RMSNorm \<Rightarrow> vec \<Rightarrow> vec" where
  "RMSNorm_forward n x = map2 (*) (RMSNorm_norm n x) (weight n)"

section \<open>Rotary embedding\<close>

text \<open>
  \<^verbatim>\<open>precompute_freqs_cis\<close>, lines 54-59: one frequency for each even index below \<^verbatim>\<open>dim\<close>
  (the first \<^verbatim>\<open>dim // 2\<close> of them), one row per position, each entry the unit complex
  number of angle position times frequency.
\<close>

definition precompute_freqs_cis :: "int \<Rightarrow> int \<Rightarrow> real \<Rightarrow> complex list list" where
  "precompute_freqs_cis d n_end theta =
     (let freqs = map (\<lambda>i. 1 / (theta powr (real (2 * i) / real_of_int d))) [0..<nat (d div 2)]
      in map (\<lambda>t. map (\<lambda>f. cis (real t * f)) freqs) [0..<nat n_end])"

text \<open>
  \<^verbatim>\<open>torch.view_as_complex\<close> and \<^verbatim>\<open>torch.view_as_real\<close> on the last axis: adjacent
  entries pair up as real and imaginary part.
\<close>

fun view_as_complex :: "real list \<Rightarrow> complex list" where
  "view_as_complex (a # b # xs) = Complex a b # view_as_complex xs"
| "view_as_complex _ = []"

fun view_as_real :: "complex list \<Rightarrow> real list" where
  "view_as_real [] = []"
| "view_as_real (c # cs) = Re c # Im c # view_as_real cs"

text \<open>
  The product \<^verbatim>\<open>xq_ * freqs_cis\<close> on one head vector at one position, with the row of
  the table for that position.
\<close>

definition rotate :: "complex list \<Rightarrow> vec \<Rightarrow> vec" where
  "rotate f v = view_as_real (map2 (*) (view_as_complex v) f)"

text \<open>
  \<^verbatim>\<open>apply_rotary_emb\<close>, lines 70-87, on queries and keys of shape (batch, sequence,
  heads, head_dim) and a table slice with one row per sequence position. The source
  flattens heads into the batch axis, multiplies, and restores the shape; for an even
  \<^verbatim>\<open>head_dim\<close> that is the rotation of every head vector by the row of its position,
  which is what the model computes. A slice whose length differs from the window's is
  a shape error.
\<close>

definition apply_rotary_emb ::
  "real list list list list \<Rightarrow> real list list list list \<Rightarrow> complex list list
    \<Rightarrow> error + (real list list list list \<times> real list list list list)" where
  "apply_rotary_emb xq xk freqs_cis =
     (if (\<exists>row \<in> set xq. length row \<noteq> length freqs_cis)
         \<or> (\<exists>row \<in> set xk. length row \<noteq> length freqs_cis)
      then Inl RuntimeError
      else Inr (map (\<lambda>row. map2 (\<lambda>heads f. map (rotate f) heads) row freqs_cis) xq,
                map (\<lambda>row. map2 (\<lambda>heads f. map (rotate f) heads) row freqs_cis) xk))"

text \<open>
  \<^verbatim>\<open>repeat_kv\<close>, lines 90-99: every key/value head repeated \<open>n_rep\<close> times in place
  (\<^verbatim>\<open>repeat_interleave\<close> on the head axis).
\<close>

definition repeat_kv :: "'a list list list list \<Rightarrow> int \<Rightarrow> 'a list list list list" where
  "repeat_kv x n_rep =
     (if n_rep = 1 then x
      else map (map (\<lambda>heads. concat (map (replicate (nat n_rep)) heads))) x)"

section \<open>Attention\<close>

text \<open>
  The sharded layers (\<^verbatim>\<open>ColumnParallelLinear\<close>, \<^verbatim>\<open>RowParallelLinear\<close>,
  \<^verbatim>\<open>ParallelEmbedding\<close>) are imported from a module outside the modelled files. What a
  layer computes is a parameter of the model: a function on the last axis of its input,
  applied at every batch row and position.
\<close>

record Attention =
  n_kv_heads :: int
  n_local_heads :: int
  n_local_kv_heads :: int
  n_rep :: int
  head_dim :: int
  wq :: "vec \<Rightarrow> vec"
  wk :: "vec \<Rightarrow> vec"
  wv :: "vec \<Rightarrow> vec"
  wo :: "vec \<Rightarrow> vec"
  cache_k :: "real list list list list"
  cache_v :: "real list list list list"

definition dot :: "vec \<Rightarrow> vec \<Rightarrow> real" where
  "dot x y = sum_list (map2 (*) x y)"

text \<open>
  \<^verbatim>\<open>F.softmax\<close> over the last axis; the exponential of negative infinity is 0.
\<close>

definition softmax :: "xreal list \<Rightarrow> real list" where
  "softmax xs = map (\<lambda>x. xexp x / sum_list (map xexp xs)) xs"

text \<open>
  Lines 220-223 for one batch row, one head and one query: the products of the query
  with every key of the cache, scaled, plus the mask row of the query, then the softmax
  (\<open>attn_weights\<close>); and the product of such a row of weights with the values
  (\<open>weighted_sum\<close>).
\<close>

definition attn_weights :: "int \<Rightarrow> vec \<Rightarrow> xreal list \<Rightarrow> vec list \<Rightarrow> real list" where
  "attn_weights hdim q mrow ks =
     softmax (map2 (\<lambda>s m. xadd s m) (map (\<lambda>k. dot q k / sqrt (real_of_int hdim)) ks) mrow)"

definition weighted_sum :: "nat \<Rightarrow> real list \<Rightarrow> vec list \<Rightarrow> vec" where
  "weighted_sum d ws vs = map (\<lambda>i. sum_list (map2 (\<lambda>w v. w * v ! i) ws vs)) [0..<d]"

text \<open>
  Lines 199-205: the three projections, cut into heads, queries and keys rotated. The
  values are not rotated.
\<close>

definition Attention_qkv ::
  "Attention \<Rightarrow> real list list list \<Rightarrow> complex list list
     \<Rightarrow> error + (real list list list list \<times> real list list list list \<times> real list list list list)" where
  "Attention_qkv a x fc =
     bind_err (view_heads (map (map (wq a)) x) (n_local_heads a) (head_dim a)) (\<lambda>xq.
     bind_err (view_heads (map (map (wk a)) x) (n_local_kv_heads a) (head_dim a)) (\<lambda>xk.
     bind_err (view_heads (map (map (wv a)) x) (n_local_kv_heads a) (head_dim a)) (\<lambda>xv.
     bind_err (apply_rotary_emb xq xk fc) (\<lambda>(xq, xk). Inr (xq, xk, xv)))))"

text \<open>
  Lines 210-222: the tensor \<^verbatim>\<open>scores\<close> after the softmax. The keys are the whole cache
  (\<^verbatim>\<open>self.cache_k[:, :]\<close>), every head repeated \<open>n_rep\<close> times. The source holds the
  tensor as (batch, heads, window, cache length); the model indexes it as (batch,
  window, heads, cache length), the transposes of lines 217-219 being a change of
  index order only.
\<close>

definition Attention_scores ::
  "Attention \<Rightarrow> real list list list list \<Rightarrow> xreal list list \<Rightarrow> real list list list list" where
  "Attention_scores a xq msk =
     map (\<lambda>(q, keys).
            map2 (\<lambda>qt mrow.
                    map (\<lambda>h. attn_weights (head_dim a) (qt ! h) mrow (map (\<lambda>kv. kv ! h) keys))
                        [0..<nat (n_local_heads a)])
                 q msk)
         (zip xq (repeat_kv (cache_k a) (n_rep a)))"

text \<open>
  Lines 223-224: the product of the scores with the values of the whole cache, and the
  heads of each position laid side by side again.
\<close>

definition Attention_output ::
  "Attention \<Rightarrow> real list list list list \<Rightarrow> real list list list" where
  "Attention_output a scores =
     map (\<lambda>(sc, values).
            map (\<lambda>st. concat (map (\<lambda>h. weighted_sum (nat (head_dim a)) (st ! h)
                                           (map (\<lambda>kv. kv ! h) values))
                                   [0..<nat (n_local_heads a)]))
                sc)
         (zip scores (repeat_kv (cache_v a) (n_rep a)))"

text \<open>
  \<^verbatim>\<open>Attention.forward\<close>, lines 191-225. The result is the outcome together with the
  instance after the call: the two assignments to \<^verbatim>\<open>self.cache_k\<close> and
  \<^verbatim>\<open>self.cache_v\<close> are the only ones the method makes, and an exception raised after
  them leaves them in place. The batched products of lines 220-223 need as many query
  heads as repeated key heads and one mask row per window position.
\<close>

definition Attention_forward ::
  "Attention \<Rightarrow> real list list list \<Rightarrow> complex list list \<Rightarrow> xreal list list \<Rightarrow> int list
     \<Rightarrow> (error + real list list list) \<times> Attention" where
  "Attention_forward a x fc msk input_indexes =
     (case bind_err (Attention_qkv a x fc) (\<lambda>(xq, xk, xv).
           bind_err (index_copy (cache_k a) input_indexes xk) (\<lambda>ck. Inr (xq, xv, ck)))
      of Inl e \<Rightarrow> (Inl e, a)
       | Inr (xq, xv, ck) \<Rightarrow>
          (let a1 = a\<lparr>cache_k := ck\<rparr> in
           case index_copy (cache_v a1) input_indexes xv
           of Inl e \<Rightarrow> (Inl e, a1)
            | Inr cv \<Rightarrow>
               (let a2 = a1\<lparr>cache_v := cv\<rparr> in
                if n_local_heads a2 \<noteq> n_local_kv_heads a2 * n_rep a2
                   \<or> (\<exists>row \<in> set xq. length row \<noteq> length msk)
                then (Inl RuntimeError, a2)
                else (Inr (map (map (wo a2)) (Attention_output a2 (Attention_scores a2 xq msk))),
                      a2))))"

section \<open>FeedForward and TransformerBlock\<close>

record FeedForward =
  w1 :: "vec \<Rightarrow> vec"
  w2 :: "vec \<Rightarrow> vec"
  w3 :: "vec \<Rightarrow> vec"

definition silu :: "real \<Rightarrow> real" where
  "silu z = z / (1 + exp (- z))"

definition FeedForward_forward :: "FeedForward \<Rightarrow> vec \<Rightarrow> vec" where
  "FeedForward_forward f x = w2 f (map2 (*) (map silu (w1 f x)) (w3 f x))"

record TransformerBlock =
  attention :: Attention
  feed_forward :: FeedForward
  layer_id :: int
  attention_norm :: RMSNorm
  ffn_norm :: RMSNorm

text \<open>
  \<^verbatim>\<open>TransformerBlock.forward\<close>, lines 334-345: the two residual additions, position by
  position.
\<close>

definition TransformerBlock_forward ::
  "TransformerBlock \<Rightarrow> real list list list \<Rightarrow> complex list list \<Rightarrow> xreal list list \<Rightarrow> int list
     \<Rightarrow> (error + real list list list) \<times> TransformerBlock" where
  "TransformerBlock_forward l x fc msk input_indexes =
     (case Attention_forward (attention l) (map (map (RMSNorm_forward (attention_norm l))) x)
             fc msk input_indexes
      of (Inl e, a') \<Rightarrow> (Inl e, l\<lparr>attention := a'\<rparr>)
       | (Inr att, a') \<Rightarrow>
          (let h = map2 (map2 (map2 (+))) x att;
               out = map (map (\<lambda>hv. map2 (+) hv
                        (FeedForward_forward (feed_forward l) (RMSNorm_forward (ffn_norm l) hv)))) h
           in (Inr out, l\<lparr>attention := a'\<rparr>)))"

section \<open>Transformer\<close>

text \<open>
  The buffers and submodules of \<^verbatim>\<open>Transformer\<close>; \<^verbatim>\<open>self.vocab_size\<close> and
  \<^verbatim>\<open>self.n_layers\<close> are copies of fields of \<^verbatim>\<open>self.params\<close> and are read from there.
  The mask buffer has shape (1, 1, max_seq_len, max_seq_len); the model keeps its two
  proper axes. \<open>output_linear\<close> is \<^verbatim>\<open>self.output\<close>.
\<close>

record Transformer =
  params :: ModelArgs
  tok_embeddings :: "int \<Rightarrow> vec"
  layers :: "TransformerBlock list"
  norm :: RMSNorm
  output_linear :: "vec \<Rightarrow> vec"
  freqs_cis :: "complex list list"
  mask :: "xreal list list"

text \<open>
  The loop over \<^verbatim>\<open>self.layers\<close>, lines 418-419. A layer that raises ends the call; the
  layers before it keep the caches they have written.
\<close>

fun layers_forward ::
  "TransformerBlock list \<Rightarrow> real list list list \<Rightarrow> complex list list \<Rightarrow> xreal list list \<Rightarrow> int list
     \<Rightarrow> (error + real list list list) \<times> TransformerBlock list" where
  "layers_forward [] h fc msk idx = (Inr h, [])"
| "layers_forward (l # ls) h fc msk idx =
     (case TransformerBlock_forward l h fc msk idx
      of (Inl e, l') \<Rightarrow> (Inl e, l' # ls)
       | (Inr h', l') \<Rightarrow>
          (case layers_forward ls h' fc msk idx of (r, ls') \<Rightarrow> (r, l' # ls')))"

text \<open>
  The result of \<^verbatim>\<open>Transformer.forward\<close> has two axes when an output position is given
  and three when it is not.
\<close>

datatype logits = Logits2 "real list list" | Logits3 "real list list list"

text \<open>
  \<^verbatim>\<open>Transformer.forward\<close>, lines 409-424. \<open>tokens\<close> is (batch, window), \<open>input_indexes\<close>
  the window's positions, \<open>output_index\<close> the optional single position. The offset
  \<^verbatim>\<open>output_index - input_indexes[0]\<close> is an integer subtraction, and
  \<^verbatim>\<open>index_select\<close> raises on an offset outside the window.
\<close>

definition Transformer_forward ::
  "Transformer \<Rightarrow> int list list \<Rightarrow> int list \<Rightarrow> int option \<Rightarrow> (error + logits) \<times> Transformer" where
  "Transformer_forward tr tokens input_indexes output_index =
     (if int (length tokens) \<noteq> max_batch_size (params tr) then (Inl AssertionError, tr)
      else
        let h = map (map (tok_embeddings tr)) tokens in
        case bind_err (index_select (freqs_cis tr) input_indexes) (\<lambda>fc.
             bind_err (index_select (mask tr) input_indexes) (\<lambda>msk. Inr (fc, msk)))
        of Inl e \<Rightarrow> (Inl e, tr)
         | Inr (fc, msk) \<Rightarrow>
            (case layers_forward (layers tr) h fc msk input_indexes
             of (r, ls') \<Rightarrow>
               (let tr' = tr\<lparr>layers := ls'\<rparr> in
                case r
                of Inl e \<Rightarrow> (Inl e, tr')
                 | Inr h' \<Rightarrow>
                    (let hn = map (map (RMSNorm_forward (norm tr'))) h' in
                     case output_index
                     of None \<Rightarrow> (Inr (Logits3 (map (map (output_linear tr')) hn)), tr')
                      | Some oi \<Rightarrow>
                         (case input_indexes
                          of [] \<Rightarrow> (Inl IndexError, tr')
                           | i0 # _ \<Rightarrow>
                              (if \<forall>row \<in> set hn. 0 \<le> oi - i0 \<and> oi - i0 < int (length row)
                               then (Inr (Logits2 (map (\<lambda>row. output_linear tr' (row ! nat (oi - i0))) hn)),
                                     tr')
                               else (Inl IndexError, tr')))))))"

section \<open>Construction\<close>

text \<open>
  \<^verbatim>\<open>divide_and_check_no_remainder\<close> of fairscale: an assertion that the remainder is
  zero, then the floor quotient.
\<close>

definition divide_and_check_no_remainder :: "int \<Rightarrow> int \<Rightarrow> error + int" where
  "divide_and_check_no_remainder numerator denominator =
     (if denominator = 0 then Inl ZeroDivisionError
      else if numerator mod denominator \<noteq> 0 then Inl AssertionError
      else Inr (numerator div denominator))"

text \<open>
  Modelled from the spec: the constructors of \<^verbatim>\<open>ColumnParallelLinear\<close>,
  \<^verbatim>\<open>RowParallelLinear\<close> and \<^verbatim>\<open>ParallelEmbedding\<close>, which are not among the modelled
  files. A sharded layer cuts its output axis (column), its input axis (row) or its
  embedding axis into one slice per worker; a size that the number of workers does not
  divide is a fatal error at construction, and so is a negative size of the
  weight it allocates. What the layer computes comes from outside, as a function.
\<close>

definition ColumnParallelLinear_init :: "int \<Rightarrow> int \<Rightarrow> int \<Rightarrow> error + unit" where
  "ColumnParallelLinear_init in_features out_features world_size =
     bind_err (divide_and_check_no_remainder out_features world_size) (\<lambda>part.
       if in_features < 0 \<or> part < 0 then Inl RuntimeError else Inr ())"

definition RowParallelLinear_init :: "int \<Rightarrow> int \<Rightarrow> int \<Rightarrow> error + unit" where
  "RowParallelLinear_init in_features out_features world_size =
     bind_err (divide_and_check_no_remainder in_features world_size) (\<lambda>part.
       if part < 0 \<or> out_features < 0 then Inl RuntimeError else Inr ())"

definition ParallelEmbedding_init :: "int \<Rightarrow> int \<Rightarrow> int \<Rightarrow> error + unit" where
  "ParallelEmbedding_init num_embeddings embedding_dim world_size =
     bind_err (divide_and_check_no_remainder embedding_dim world_size) (\<lambda>part.
       if num_embeddings < 0 \<or> part < 0 then Inl RuntimeError else Inr ())"

text \<open>
  The functions and norm weights a block and a model are built around.
\<close>

record block_weights =
  bw_wq :: "vec \<Rightarrow> vec"
  bw_wk :: "vec \<Rightarrow> vec"
  bw_wv :: "vec \<Rightarrow> vec"
  bw_wo :: "vec \<Rightarrow> vec"
  bw_w1 :: "vec \<Rightarrow> vec"
  bw_w2 :: "vec \<Rightarrow> vec"
  bw_w3 :: "vec \<Rightarrow> vec"
  bw_attention_norm :: vec
  bw_ffn_norm :: vec

record model_weights =
  mw_tok_embeddings :: "int \<Rightarrow> vec"
  mw_layers :: "nat \<Rightarrow> block_weights"
  mw_norm :: vec
  mw_output :: "vec \<Rightarrow> vec"

text \<open>
  \<^verbatim>\<open>Attention.__init__\<close>, lines 114-189, in the order of the source: the two checked
  divisions by the world size, the two floor divisions (which raise on a zero divisor),
  the four projections, the two caches.
\<close>

definition Attention_init :: "ModelArgs \<Rightarrow> int \<Rightarrow> block_weights \<Rightarrow> error + Attention" where
  "Attention_init args world_size w =
     (let nkv = (case ModelArgs.n_kv_heads args of None \<Rightarrow> n_heads args | Some k \<Rightarrow> k) in
      bind_err (divide_and_check_no_remainder (n_heads args) world_size) (\<lambda>nlh.
      bind_err (divide_and_check_no_remainder nkv world_size) (\<lambda>nlkv.
      if nlkv = 0 then Inl ZeroDivisionError
      else if n_heads args = 0 then Inl ZeroDivisionError
      else
        let nrep = nlh div nlkv;
            hdim = dim args div n_heads args in
        bind_err (ColumnParallelLinear_init (dim args) (n_heads args * hdim) world_size) (\<lambda>_.
        bind_err (ColumnParallelLinear_init (dim args) (nkv * hdim) world_size) (\<lambda>_.
        bind_err (ColumnParallelLinear_init (dim args) (nkv * hdim) world_size) (\<lambda>_.
        bind_err (RowParallelLinear_init (n_heads args * hdim) (dim args) world_size) (\<lambda>_.
        bind_err (zeros4 (max_batch_size args) (max_seq_len args) nlkv hdim) (\<lambda>ck.
        bind_err (zeros4 (max_batch_size args) (max_seq_len args) nlkv hdim) (\<lambda>cv.
        Inr \<lparr>n_kv_heads = nkv, n_local_heads = nlh, n_local_kv_heads = nlkv, n_rep = nrep,
             head_dim = hdim, wq = bw_wq w, wk = bw_wk w, wv = bw_wv w, wo = bw_wo w,
             cache_k = ck, cache_v = cv\<rparr>)))))))))"

text \<open>
  \<^verbatim>\<open>FeedForward.__init__\<close>, lines 242-290, and \<^verbatim>\<open>RMSNorm.__init__\<close>, lines 41-44.
\<close>

definition FeedForward_init ::
  "int \<Rightarrow> int \<Rightarrow> int \<Rightarrow> real option \<Rightarrow> int \<Rightarrow> block_weights \<Rightarrow> error + FeedForward" where
  "FeedForward_init d hidden_dim mult_of multiplier world_size w =
     bind_err (FeedForward_hidden_dim hidden_dim mult_of multiplier) (\<lambda>h.
     bind_err (ColumnParallelLinear_init d h world_size) (\<lambda>_.
     bind_err (RowParallelLinear_init h d world_size) (\<lambda>_.
     bind_err (ColumnParallelLinear_init d h world_size) (\<lambda>_.
     Inr \<lparr>w1 = bw_w1 w, w2 = bw_w2 w, w3 = bw_w3 w\<rparr>))))"

definition RMSNorm_init :: "int \<Rightarrow> real \<Rightarrow> vec \<Rightarrow> error + RMSNorm" where
  "RMSNorm_init d e w = (if d < 0 then Inl RuntimeError else Inr \<lparr>eps = e, weight = w\<rparr>)"

text \<open>
  \<^verbatim>\<open>TransformerBlock.__init__\<close>, lines 304-332.
\<close>

definition TransformerBlock_init ::
  "int \<Rightarrow> ModelArgs \<Rightarrow> int \<Rightarrow> block_weights \<Rightarrow> error + TransformerBlock" where
  "TransformerBlock_init lid args world_size w =
     (if n_heads args = 0 then Inl ZeroDivisionError
      else
        bind_err (Attention_init args world_size w) (\<lambda>a.
        bind_err (FeedForward_init (dim args) (4 * dim args) (multiple_of args)
                    (ffn_dim_multiplier args) world_size w) (\<lambda>f.
        bind_err (RMSNorm_init (dim args) (norm_eps args) (bw_attention_norm w)) (\<lambda>an.
        bind_err (RMSNorm_init (dim args) (norm_eps args) (bw_ffn_norm w)) (\<lambda>fn.
        Inr \<lparr>attention = a, feed_forward = f, layer_id = lid,
             attention_norm = an, ffn_norm = fn\<rparr>)))))"

fun init_layers ::
  "ModelArgs \<Rightarrow> int \<Rightarrow> (nat \<Rightarrow> block_weights) \<Rightarrow> nat list \<Rightarrow> error + TransformerBlock list" where
  "init_layers args world_size w [] = Inr []"
| "init_layers args world_size w (i # is) =
     bind_err (TransformerBlock_init (int i) args world_size (w i)) (\<lambda>l.
     bind_err (init_layers args world_size w is) (\<lambda>ls. Inr (l # ls)))"

text \<open>
  Lines 403-406: a square of negative infinities, of which \<^verbatim>\<open>torch.triu\<close> with
  \<^verbatim>\<open>diagonal=1\<close> keeps the entries whose column exceeds the row by at least one and
  sets the others to zero.
\<close>

definition full :: "int \<Rightarrow> xreal \<Rightarrow> error + xreal list list" where
  "full n v = (if n < 0 then Inl RuntimeError else Inr (replicate (nat n) (replicate (nat n) v)))"

definition triu :: "xreal list list \<Rightarrow> int \<Rightarrow> xreal list list" where
  "triu m diagonal =
     map (\<lambda>i. map (\<lambda>j. if diagonal \<le> int j - int i then m ! i ! j else Fin 0)
                 [0..<length (m ! i)])
         [0..<length m]"

text \<open>
  \<^verbatim>\<open>Transformer.__init__\<close>, lines 355-407.
\<close>

definition Transformer_init :: "ModelArgs \<Rightarrow> int \<Rightarrow> model_weights \<Rightarrow> error + Transformer" where
  "Transformer_init ps world_size w =
     bind_err (ParallelEmbedding_init (vocab_size ps) (dim ps) world_size) (\<lambda>_.
     bind_err (init_layers ps world_size (mw_layers w) [0..<nat (n_layers ps)]) (\<lambda>ls.
     bind_err (RMSNorm_init (dim ps) (norm_eps ps) (mw_norm w)) (\<lambda>nrm.
     bind_err (ColumnParallelLinear_init (dim ps) (vocab_size ps) world_size) (\<lambda>_.
     if n_heads ps = 0 then Inl ZeroDivisionError
     else
       bind_err (full (max_seq_len ps) NegInf) (\<lambda>m.
       Inr \<lparr>params = ps, tok_embeddings = mw_tok_embeddings w, layers = ls, norm = nrm,
            output_linear = mw_output w,
            freqs_cis = precompute_freqs_cis (dim ps div n_heads ps) (max_seq_len ps * 2) 10000,
            mask = triu m 1\<rparr>)))))"

section \<open>A small instance\<close>

text \<open>
  The configuration of the specification's end-to-end scenario: embedding dimension 8,
  one layer, two heads sharing one key/value head, sixteen tokens, four positions, one
  batch row. The layer functions cut or zero-pad their argument to the width the
  constructor gives the layer.
\<close>

definition pad :: "nat \<Rightarrow> vec \<Rightarrow> vec" where
  "pad n v = take n (v @ replicate n 0)"

definition tiny_args :: ModelArgs where
  "tiny_args = default_ModelArgs\<lparr>dim := 8, n_layers := 1, n_heads := 2, ModelArgs.n_kv_heads := Some 1,
     vocab_size := 16, max_batch_size := 1, max_seq_len := 4\<rparr>"

definition tiny_block_weights :: block_weights where
  "tiny_block_weights =
     \<lparr>bw_wq = pad 8, bw_wk = pad 4, bw_wv = pad 4, bw_wo = pad 8,
      bw_w1 = pad 256, bw_w2 = pad 8, bw_w3 = pad 256,
      bw_attention_norm = replicate 8 1, bw_ffn_norm = replicate 8 1\<rparr>"

definition tiny_weights :: model_weights where
  "tiny_weights =
     \<lparr>mw_tok_embeddings = (\<lambda>t. replicate 8 (real_of_int t)),
      mw_layers = (\<lambda>_. tiny_block_weights),
      mw_norm = replicate 8 1,
      mw_output = pad 16\<rparr>"

definition tiny_attention :: Attention where
  "tiny_attention =
     \<lparr>n_kv_heads = 1, n_local_heads = 2, n_local_kv_heads = 1, n_rep = 2, head_dim = 4,
      wq = pad 8, wk = pad 4, wv = pad 4, wo = pad 8,
      cache_k = replicate 1 (replicate 4 (replicate 1 (replicate 4 0))),
      cache_v = replicate 1 (replicate 4 (replicate 1 (replicate 4 0)))\<rparr>"

definition tiny_model :: Transformer where
  "tiny_model =
     \<lparr>params = tiny_args,
      tok_embeddings = (\<lambda>t. replicate 8 (real_of_int t)),
      layers = [\<lparr>attention = tiny_attention,
                 feed_forward = \<lparr>w1 = pad 256, w2 = pad 8, w3 = pad 256\<rparr>,
                 layer_id = 0,
                 attention_norm = \<lparr>eps = 1 / 100000, weight = replicate 8 1\<rparr>,
                 ffn_norm = \<lparr>eps = 1 / 100000, weight = replicate 8 1\<rparr>\<rparr>],
      norm = \<lparr>eps = 1 / 100000, weight = replicate 8 1\<rparr>,
      output_linear = pad 16,
      freqs_cis = precompute_freqs_cis 4 8 10000,
      mask = triu (replicate 4 (replicate 4 NegInf)) 1\<rparr>"


section \<open>What a call may change\<close>

text \<open>
  An attention instance after a call is the instance before it with, at most, other
  contents in its two caches; a block is its old self around such an attention.
\<close>

definition same_but_caches :: "Attention \<Rightarrow> Attention \<Rightarrow> bool" where
  "same_but_caches a a' = (a' = a\<lparr>cache_k := cache_k a', cache_v := cache_v a'\<rparr>)"

definition block_same_but_caches :: "TransformerBlock \<Rightarrow> TransformerBlock \<Rightarrow> bool" where
  "block_same_but_caches l l' =
     (\<exists>a'. same_but_caches (attention l) a' \<and> l' = l\<lparr>attention := a'\<rparr>)"

section \<open>Incremental decoding\<close>


section \<open>Instances as the constructors leave them\<close>


text \<open>
  The shape of an attention instance for \<open>bsz\<close> batch rows and \<open>msl\<close> positions: sizes
  that are not negative, an even head dimension (the rotary embedding pairs the entries
  of a head), as many query heads as repeated key/value heads, projections of the
  widths \<^verbatim>\<open>__init__\<close> gives them, and two caches of \<open>bsz\<close> rows of \<open>msl\<close> positions of
  \<^verbatim>\<open>n_local_kv_heads\<close> heads of \<^verbatim>\<open>head_dim\<close> entries.
\<close>

definition wf_Attention :: "nat \<Rightarrow> nat \<Rightarrow> Attention \<Rightarrow> bool" where
  "wf_Attention bsz msl a =
     (0 \<le> n_local_heads a \<and> 0 \<le> n_local_kv_heads a \<and> 0 \<le> head_dim a \<and> even (head_dim a)
      \<and> n_local_heads a = n_local_kv_heads a * n_rep a
      \<and> (\<forall>v. int (length (wq a v)) = n_local_heads a * head_dim a)
      \<and> (\<forall>v. int (length (wk a v)) = n_local_kv_heads a * head_dim a)
      \<and> (\<forall>v. int (length (wv a v)) = n_local_kv_heads a * head_dim a)
      \<and> length (cache_k a) = bsz \<and> length (cache_v a) = bsz
      \<and> (\<forall>c \<in> set (cache_k a) \<union> set (cache_v a).
            length c = msl
            \<and> (\<forall>pos \<in> set c. int (length pos) = n_local_kv_heads a
                  \<and> (\<forall>hv \<in> set pos. int (length hv) = head_dim a))))"

text \<open>
  A block around such an attention, for embedding dimension \<open>d\<close>: the attention output
  and the feed-forward output have width \<open>d\<close>, the two gated projections have one
  width, and the norm weights have length \<open>d\<close>.
\<close>

definition wf_TransformerBlock :: "nat \<Rightarrow> nat \<Rightarrow> nat \<Rightarrow> int \<Rightarrow> TransformerBlock \<Rightarrow> bool" where
  "wf_TransformerBlock bsz msl d hdim l =
     (wf_Attention bsz msl (attention l)
      \<and> head_dim (attention l) = hdim
      \<and> (\<forall>v. length (wo (attention l) v) = d)
      \<and> (\<forall>v. length (w2 (feed_forward l) v) = d)
      \<and> (\<forall>v. length (w1 (feed_forward l) v) = length (w3 (feed_forward l) v))
      \<and> length (weight (attention_norm l)) = d
      \<and> length (weight (ffn_norm l)) = d)"

text \<open>
  A model as \<^verbatim>\<open>Transformer.__init__\<close> builds it around layer functions of the widths it
  asks for: every block well-shaped for \<^verbatim>\<open>max_batch_size\<close> rows and \<^verbatim>\<open>max_seq_len\<close>
  positions, the rotary table and the mask those of lines 398-407. The contents of the
  caches are not constrained: zero-filled after construction, or whatever earlier calls
  have written.
\<close>

definition wf_Transformer :: "Transformer \<Rightarrow> bool" where
  "wf_Transformer tr =
     (let ps = params tr;
          msl = max_seq_len ps;
          hdim = dim ps div n_heads ps
      in 0 \<le> max_batch_size ps \<and> 0 \<le> msl \<and> 0 \<le> dim ps \<and> 0 \<le> vocab_size ps
         \<and> (\<forall>l \<in> set (layers tr).
               wf_TransformerBlock (nat (max_batch_size ps)) (nat msl) (nat (dim ps)) hdim l)
         \<and> (\<forall>t. length (tok_embeddings tr t) = nat (dim ps))
         \<and> length (weight (norm tr)) = nat (dim ps)
         \<and> (\<forall>v. length (output_linear tr v) = nat (vocab_size ps))
         \<and> freqs_cis tr = precompute_freqs_cis hdim (msl * 2) 10000
         \<and> mask tr = triu (replicate (nat msl) (replicate (nat msl) NegInf)) 1)"

text \<open>
  Layer functions of the widths the constructors ask for, on a worker of a group of
  \<open>world_size\<close>: a column-parallel layer that does not gather returns this worker's slice
  of its output, a row-parallel layer and a gathering layer return the full width.
\<close>

definition weights_fit :: "ModelArgs \<Rightarrow> int \<Rightarrow> model_weights \<Rightarrow> bool" where
  "weights_fit ps world_size w =
     (let hdim = dim ps div n_heads ps;
          nkv = (case ModelArgs.n_kv_heads ps of None \<Rightarrow> n_heads ps | Some k \<Rightarrow> k)
      in (\<forall>i v. int (length (bw_wq (mw_layers w i) v)) = n_heads ps div world_size * hdim
               \<and> int (length (bw_wk (mw_layers w i) v)) = nkv div world_size * hdim
               \<and> int (length (bw_wv (mw_layers w i) v)) = nkv div world_size * hdim
               \<and> length (bw_wo (mw_layers w i) v) = nat (dim ps)
               \<and> length (bw_w2 (mw_layers w i) v) = nat (dim ps)
               \<and> length (bw_w1 (mw_layers w i) v) = length (bw_w3 (mw_layers w i) v))
         \<and> (\<forall>i. length (bw_attention_norm (mw_layers w i)) = nat (dim ps)
               \<and> length (bw_ffn_norm (mw_layers w i)) = nat (dim ps))
         \<and> (\<forall>t. length (mw_tok_embeddings w t) = nat (dim ps))
         \<and> length (mw_norm w) = nat (dim ps)
         \<and> (\<forall>v. length (mw_output w v) = nat (vocab_size ps)))"

section \<open>Results: the hidden dimension\<close>

lemma py_int_nonneg_floor: "0 \<le> x \<Longrightarrow> py_int x = \<lfloor>x\<rfloor>"
  by (simp add: py_int_def)






section \<open>Results: errors, shapes and the frame of a call\<close>

lemma same_but_caches_refl: "same_but_caches a a"
  by (simp add: same_but_caches_def)

lemma block_same_but_caches_refl: "block_same_but_caches l l"
  unfolding block_same_but_caches_def using same_but_caches_refl [of "attention l"]
  by (metis TransformerBlock.surjective TransformerBlock.update_convs(1))

lemma Attention_forward_frame:
  "same_but_caches a (snd (Attention_forward a x fc m idx))"
  unfolding Attention_forward_def same_but_caches_def
  by (simp add: Let_def split: sum.splits prod.splits)

lemma Attention_forward_no_assert:
  "fst (Attention_forward a x fc m idx) \<noteq> Inl AssertionError"
  unfolding Attention_forward_def Attention_qkv_def
  by (auto simp add: Let_def bind_err_def view_heads_def apply_rotary_emb_def index_copy_def
      split: sum.splits prod.splits if_splits)

lemma TransformerBlock_forward_frame:
  "block_same_but_caches l (snd (TransformerBlock_forward l x fc m idx))"
proof -
  obtain r a' where e: "Attention_forward (attention l) (map (map (RMSNorm_forward (attention_norm l))) x) fc m idx = (r, a')"
    by (cases "Attention_forward (attention l) (map (map (RMSNorm_forward (attention_norm l))) x) fc m idx")
  have s: "same_but_caches (attention l) a'"
    using Attention_forward_frame [of "attention l" "map (map (RMSNorm_forward (attention_norm l))) x" fc m idx] e by simp
  have "snd (TransformerBlock_forward l x fc m idx) = l\<lparr>attention := a'\<rparr>"
    unfolding TransformerBlock_forward_def using e by (simp add: Let_def split: sum.splits)
  then show ?thesis unfolding block_same_but_caches_def using s by blast
qed

lemma TransformerBlock_forward_no_assert:
  "fst (TransformerBlock_forward l x fc m idx) \<noteq> Inl AssertionError"
proof -
  obtain r a' where e: "Attention_forward (attention l) (map (map (RMSNorm_forward (attention_norm l))) x) fc m idx = (r, a')"
    by (cases "Attention_forward (attention l) (map (map (RMSNorm_forward (attention_norm l))) x) fc m idx")
  have "r \<noteq> Inl AssertionError"
    using Attention_forward_no_assert [of "attention l" "map (map (RMSNorm_forward (attention_norm l))) x" fc m idx] e by simp
  then show ?thesis
    unfolding TransformerBlock_forward_def using e by (auto simp add: Let_def split: sum.splits)
qed

lemma layers_forward_frame:
  "list_all2 block_same_but_caches ls (snd (layers_forward ls h fc m idx))"
proof (induction ls arbitrary: h)
  case Nil
  then show ?case by simp
next
  case (Cons l ls)
  obtain r l' where e: "TransformerBlock_forward l h fc m idx = (r, l')"
    by (cases "TransformerBlock_forward l h fc m idx")
  have b: "block_same_but_caches l l'"
    using TransformerBlock_forward_frame [of l h fc m idx] e by simp
  show ?case
  proof (cases r)
    case (Inl err)
    then show ?thesis using e b
      by (simp add: list_all2_refl block_same_but_caches_refl list.rel_refl)
  next
    case (Inr h')
    then show ?thesis using e b Cons.IH [of h']
      by (auto split: prod.splits)
  qed
qed

lemma layers_forward_no_assert:
  "fst (layers_forward ls h fc m idx) \<noteq> Inl AssertionError"
proof (induction ls arbitrary: h)
  case Nil
  then show ?case by simp
next
  case (Cons l ls)
  obtain r l' where e: "TransformerBlock_forward l h fc m idx = (r, l')"
    by (cases "TransformerBlock_forward l h fc m idx")
  have b: "r \<noteq> Inl AssertionError"
    using TransformerBlock_forward_no_assert [of l h fc m idx] e by simp
  show ?case
  proof (cases r)
    case (Inl err)
    then show ?thesis using e b by simp
  next
    case (Inr h')
    then show ?thesis using e Cons.IH [of h']
      by (auto split: prod.splits)
  qed
qed

lemma index_select_no_assert: "index_select xs idx \<noteq> Inl AssertionError"
  by (simp add: index_select_def)


lemma bind_err_Inr: "bind_err r f = Inr y \<longleftrightarrow> (\<exists>x. r = Inr x \<and> f x = Inr y)"
  by (cases r) (simp_all add: bind_err_def)

lemma view_heads_Inr:
  "view_heads x n d = Inr y \<longleftrightarrow>
     (0 \<le> n \<and> 0 \<le> d \<and> (\<forall>row \<in> set x. \<forall>v \<in> set row. int (length v) = n * d)
      \<and> y = map (map (chunks (nat n) (nat d))) x)"
  by (auto simp: view_heads_def)

lemma apply_rotary_emb_Inr:
  "apply_rotary_emb xq xk fc = Inr (q, k) \<longleftrightarrow>
     ((\<forall>row \<in> set xq. length row = length fc) \<and> (\<forall>row \<in> set xk. length row = length fc)
      \<and> q = map (\<lambda>row. map2 (\<lambda>heads f. map (rotate f) heads) row fc) xq
      \<and> k = map (\<lambda>row. map2 (\<lambda>heads f. map (rotate f) heads) row fc) xk)"
  by (auto simp: apply_rotary_emb_def)

lemma index_copy_Inr:
  "index_copy c idx src = Inr c' \<longleftrightarrow>
     (length src = length c \<and> (\<forall>s \<in> set src. length s = length idx)
      \<and> (\<forall>r \<in> set c. \<forall>i \<in> set idx. 0 \<le> i \<and> i < int (length r))
      \<and> c' = map2 (\<lambda>r s. index_copy_row r idx s) c src)"
  by (auto simp: index_copy_def; fastforce)

lemma Attention_qkv_Inr:
  "Attention_qkv a x fc = Inr (xq, xk, xv) \<longleftrightarrow>
     (\<exists>q0 k0. view_heads (map (map (wq a)) x) (n_local_heads a) (head_dim a) = Inr q0
        \<and> view_heads (map (map (wk a)) x) (n_local_kv_heads a) (head_dim a) = Inr k0
        \<and> view_heads (map (map (wv a)) x) (n_local_kv_heads a) (head_dim a) = Inr xv
        \<and> apply_rotary_emb q0 k0 fc = Inr (xq, xk))"
  unfolding Attention_qkv_def bind_err_Inr
  by (auto split: prod.splits)

lemma Attention_forward_Inr:
  "Attention_forward a x fc m idx = (Inr out, a') \<longleftrightarrow>
     (\<exists>xq xk xv ck cv.
        Attention_qkv a x fc = Inr (xq, xk, xv)
        \<and> index_copy (cache_k a) idx xk = Inr ck
        \<and> index_copy (cache_v a) idx xv = Inr cv
        \<and> a' = a\<lparr>cache_k := ck, cache_v := cv\<rparr>
        \<and> n_local_heads a = n_local_kv_heads a * n_rep a
        \<and> (\<forall>row \<in> set xq. length row = length m)
        \<and> out = map (map (wo a)) (Attention_output a' (Attention_scores a' xq m)))"
proof (cases "Attention_qkv a x fc")
  case (Inl e)
  then show ?thesis by (simp add: Attention_forward_def bind_err_def)
next
  case (Inr t)
  obtain xq xk xv where t: "t = (xq, xk, xv)" by (cases t)
  show ?thesis
  proof (cases "index_copy (cache_k a) idx xk")
    case (Inl e)
    then show ?thesis using Inr t by (simp add: Attention_forward_def bind_err_def)
  next
    case ck: (Inr ck)
    show ?thesis
    proof (cases "index_copy (cache_v a) idx xv")
      case (Inl e)
      then show ?thesis using Inr t ck by (simp add: Attention_forward_def bind_err_def)
    next
      case cv: (Inr cv)
      show ?thesis using Inr t ck cv
        by (auto simp add: Attention_forward_def bind_err_def Let_def)
    qed
  qed
qed

lemma Attention_qkv_shape:
  assumes "Attention_qkv a x fc = Inr (xq, xk, xv)"
  shows "length xq = length x" and "length xk = length x" and "length xv = length x"
    and "\<forall>row \<in> set x. length row = length fc"
    and "\<forall>row \<in> set xq. length row = length fc"
    and "\<forall>row \<in> set xk. length row = length fc"
    and "\<forall>row \<in> set xv. length row = length fc"
  using assms unfolding Attention_qkv_Inr view_heads_Inr apply_rotary_emb_Inr
  by auto

lemma length_repeat_kv: "length (repeat_kv x n) = length x"
  by (simp add: repeat_kv_def)


lemma Attention_scores_nth:
  assumes "b < length xq" "b < length (cache_k a)"
  shows "Attention_scores a xq m ! b =
           map2 (\<lambda>qt mrow.
                    map (\<lambda>h. attn_weights (head_dim a) (qt ! h) mrow
                                (map (\<lambda>kv. kv ! h) (repeat_kv (cache_k a) (n_rep a) ! b)))
                        [0..<nat (n_local_heads a)])
                 (xq ! b) m"
  using assms by (simp add: Attention_scores_def length_repeat_kv)



lemma index_copy_length:
  assumes "index_copy c idx src = Inr c'"
  shows "length c' = length c" and "length src = length c"
  using assms unfolding index_copy_Inr by auto





text \<open>
  C7: \<^verbatim>\<open>Transformer.forward\<close> raises the assertion error, with the model untouched,
  whenever the batch axis of \<open>tokens\<close> differs from \<^verbatim>\<open>max_batch_size\<close>; when the two
  are equal the assertion passes, and nothing later in the call raises an assertion
  error.
\<close>

theorem C7_batch_assert:
  "(int (length tokens) \<noteq> max_batch_size (params tr) \<longrightarrow>
      Transformer_forward tr tokens idx oi = (Inl AssertionError, tr))
   \<and> (int (length tokens) = max_batch_size (params tr) \<longrightarrow>
      fst (Transformer_forward tr tokens idx oi) \<noteq> Inl AssertionError)"
proof (intro conjI impI)
  assume "int (length tokens) \<noteq> max_batch_size (params tr)"
  then show "Transformer_forward tr tokens idx oi = (Inl AssertionError, tr)"
    by (simp add: Transformer_forward_def)
next
  assume eq: "int (length tokens) = max_batch_size (params tr)"
  show "fst (Transformer_forward tr tokens idx oi) \<noteq> Inl AssertionError"
  proof (cases "bind_err (index_select (freqs_cis tr) idx) (\<lambda>fc.
             bind_err (index_select (mask tr) idx) (\<lambda>msk. Inr (fc, msk)))")
    case (Inl e)
    then have "e \<noteq> AssertionError"
      by (auto simp: bind_err_def index_select_def split: sum.splits if_splits)
    then show ?thesis using eq Inl by (simp add: Transformer_forward_def)
  next
    case (Inr p)
    obtain fc msk where p: "p = (fc, msk)" by (cases p)
    obtain r ls' where l: "layers_forward (layers tr) (map (map (tok_embeddings tr)) tokens) fc msk idx = (r, ls')"
      by (cases "layers_forward (layers tr) (map (map (tok_embeddings tr)) tokens) fc msk idx")
    have "r \<noteq> Inl AssertionError"
      using layers_forward_no_assert [of "layers tr" "map (map (tok_embeddings tr)) tokens" fc msk idx] l by simp
    then show ?thesis using eq Inr p l
      by (auto simp add: Transformer_forward_def Let_def split: sum.splits option.splits list.splits)
  qed
qed

theorem C7_batch_assert_witness:
  "Transformer_forward tiny_model [] [0] None = (Inl AssertionError, tiny_model)
   \<and> fst (Transformer_forward tiny_model [[1, 2, 3]] [0, 1, 2] (Some 2)) \<noteq> Inl AssertionError"
  using C7_batch_assert [of "[]" tiny_model "[0]" None]
    C7_batch_assert [of "[[1, 2, 3]]" tiny_model "[0, 1, 2]" "Some 2"]
  by (simp add: tiny_model_def tiny_args_def default_ModelArgs_def)


lemma Transformer_forward_layers:
  "\<exists>ls'. snd (Transformer_forward tr tokens idx oi) = tr\<lparr>layers := ls'\<rparr>
         \<and> list_all2 block_same_but_caches (layers tr) ls'"
proof (cases "int (length tokens) \<noteq> max_batch_size (params tr)")
  case True
  have "tr = tr\<lparr>layers := layers tr\<rparr>" by simp
  moreover have "list_all2 block_same_but_caches (layers tr) (layers tr)"
    by (simp add: list.rel_refl block_same_but_caches_refl)
  ultimately show ?thesis using True
    by (metis Transformer_forward_def snd_conv)
next
  case eq: False
  show ?thesis
  proof (cases "bind_err (index_select (freqs_cis tr) idx) (\<lambda>fc.
             bind_err (index_select (mask tr) idx) (\<lambda>msk. Inr (fc, msk)))")
    case (Inl e)
    have "tr = tr\<lparr>layers := layers tr\<rparr>" by simp
    moreover have "list_all2 block_same_but_caches (layers tr) (layers tr)"
      by (simp add: list.rel_refl block_same_but_caches_refl)
    moreover have "snd (Transformer_forward tr tokens idx oi) = tr"
      using eq Inl by (simp add: Transformer_forward_def)
    ultimately show ?thesis by metis
  next
    case (Inr p)
    obtain fc msk where p: "p = (fc, msk)" by (cases p)
    obtain r ls' where l: "layers_forward (layers tr) (map (map (tok_embeddings tr)) tokens) fc msk idx = (r, ls')"
      by (cases "layers_forward (layers tr) (map (map (tok_embeddings tr)) tokens) fc msk idx")
    have f: "list_all2 block_same_but_caches (layers tr) ls'"
      using layers_forward_frame [of "layers tr" "map (map (tok_embeddings tr)) tokens" fc msk idx] l by simp
    have "snd (Transformer_forward tr tokens idx oi) = tr\<lparr>layers := ls'\<rparr>"
      using eq Inr p l
      by (auto simp add: Transformer_forward_def Let_def split: sum.splits option.splits list.splits)
    then show ?thesis using f by blast
  qed
qed


text \<open>
  C10: whatever the outcome of a \<^verbatim>\<open>Transformer.forward\<close> call, the model after it has
  the parameters, embedding, final norm, output projection, rotary table and mask it had
  before, and every layer has its feed-forward block, its two norms, its identifier and
  every field of its attention other than \<^verbatim>\<open>cache_k\<close> and \<^verbatim>\<open>cache_v\<close> as before.
\<close>

theorem C10_forward_frame:
  "params (snd (Transformer_forward tr tokens idx oi)) = params tr
   \<and> tok_embeddings (snd (Transformer_forward tr tokens idx oi)) = tok_embeddings tr
   \<and> norm (snd (Transformer_forward tr tokens idx oi)) = norm tr
   \<and> output_linear (snd (Transformer_forward tr tokens idx oi)) = output_linear tr
   \<and> freqs_cis (snd (Transformer_forward tr tokens idx oi)) = freqs_cis tr
   \<and> mask (snd (Transformer_forward tr tokens idx oi)) = mask tr
   \<and> list_all2 (\<lambda>l l'. feed_forward l' = feed_forward l
                      \<and> attention_norm l' = attention_norm l
                      \<and> ffn_norm l' = ffn_norm l
                      \<and> layer_id l' = layer_id l
                      \<and> attention l' = (attention l)\<lparr>cache_k := cache_k (attention l'),
                                                     cache_v := cache_v (attention l')\<rparr>)
        (layers tr) (layers (snd (Transformer_forward tr tokens idx oi)))"
proof -
  obtain ls' where s: "snd (Transformer_forward tr tokens idx oi) = tr\<lparr>layers := ls'\<rparr>"
    and f: "list_all2 block_same_but_caches (layers tr) ls'"
    using Transformer_forward_layers by blast
  have "list_all2 (\<lambda>l l'. feed_forward l' = feed_forward l
                      \<and> attention_norm l' = attention_norm l
                      \<and> ffn_norm l' = ffn_norm l
                      \<and> layer_id l' = layer_id l
                      \<and> attention l' = (attention l)\<lparr>cache_k := cache_k (attention l'),
                                                     cache_v := cache_v (attention l')\<rparr>)
        (layers tr) ls'"
    using f
    by (rule list_all2_mono) (auto simp: block_same_but_caches_def same_but_caches_def)
  then show ?thesis using s by simp
qed


theorem C10_forward_frame_witness:
  "freqs_cis (snd (Transformer_forward tiny_model [[1, 2, 3]] [0, 1, 2] (Some 2)))
     = precompute_freqs_cis 4 8 10000
   \<and> list_all2 (\<lambda>l l'. feed_forward l' = feed_forward l
                      \<and> attention_norm l' = attention_norm l
                      \<and> ffn_norm l' = ffn_norm l
                      \<and> layer_id l' = layer_id l
                      \<and> attention l' = (attention l)\<lparr>cache_k := cache_k (attention l'),
                                                     cache_v := cache_v (attention l')\<rparr>)
        (layers tiny_model) (layers (snd (Transformer_forward tiny_model [[1, 2, 3]] [0, 1, 2] (Some 2))))"
  using C10_forward_frame [of tiny_model "[[1, 2, 3]]" "[0, 1, 2]" "Some 2"]
  by (simp add: tiny_model_def)




section \<open>Results: a window and its first position\<close>

text \<open>
  A call on a window whose first position lies before all the others does what a call on
  the first position alone followed by a call on the rest does. The lemmas below lead to
  that statement for \<^verbatim>\<open>Attention.forward\<close>: the key and value rows of a position before
  the later writes are the same in both caches, and the mask row of the first position
  gives every later position the weight 0.
\<close>

lemma length_index_copy_row: "length (index_copy_row c idx src) = length c"
  by (induction c idx src rule: index_copy_row.induct) simp_all

lemma index_copy_row_nth_other:
  "\<forall>i \<in> set idx. nat i \<noteq> j \<Longrightarrow> index_copy_row c idx src ! j = c ! j"
  by (induction c idx src rule: index_copy_row.induct) simp_all


lemma xadd_NegInf_iff: "xadd a m = NegInf \<longleftrightarrow> m = NegInf"
  by (cases m) simp_all

lemma length_softmax: "length (softmax xs) = length xs"
  by (simp add: softmax_def)

lemma length_attn_weights:
  "length (attn_weights hdim q mrow ks) = min (length ks) (length mrow)"
  by (simp add: attn_weights_def length_softmax)


lemma attn_weights_nth:
  assumes "j < length ks" "j < length mrow"
  shows "attn_weights hdim q mrow ks ! j =
           xexp (xadd (dot q (ks ! j) / sqrt (real_of_int hdim)) (mrow ! j))
           / sum_list (map xexp (map2 (\<lambda>s m. xadd s m)
                 (map (\<lambda>k. dot q k / sqrt (real_of_int hdim)) ks) mrow))"
  using assms by (simp add: attn_weights_def softmax_def)

lemma attn_weights_masked:
  assumes "j < length ks" "j < length mrow" "mrow ! j = NegInf"
  shows "attn_weights hdim q mrow ks ! j = 0"
  using attn_weights_nth [OF assms(1,2)] assms(3) by simp


lemma repeat_kv_row_length:
  "b < length x \<Longrightarrow> length (repeat_kv x n ! b) = length (x ! b)"
  by (simp add: repeat_kv_def)













lemma Attention_qkv_caches [simp]:
  "Attention_qkv (a\<lparr>cache_k := ck, cache_v := cv\<rparr>) x fc = Attention_qkv a x fc"
  by (simp add: Attention_qkv_def)










lemma triu_full_nth:
  assumes "i < n" "j < n"
  shows "triu (replicate n (replicate n NegInf)) 1 ! i ! j = (if i < j then NegInf else Fin 0)"
  using assms by (auto simp: triu_def)

lemma length_triu_full:
  "length (triu (replicate n (replicate n v)) d) = n"
  "i < n \<Longrightarrow> length (triu (replicate n (replicate n v)) d ! i) = n"
  by (simp_all add: triu_def)


lemma index_select_Inr:
  "index_select xs idx = Inr ys \<longleftrightarrow>
     ((\<forall>i \<in> set idx. 0 \<le> i \<and> i < int (length xs)) \<and> ys = map (\<lambda>i. xs ! nat i) idx)"
  by (auto simp: index_select_def)




lemma Attention_forward_wf:
  assumes wf: "wf_Attention bsz msl a" and lx: "length x = bsz"
    and rows: "\<forall>row \<in> set x. length row = length idx"
    and lf: "length fc = length idx" and lm: "length m = length idx"
    and rg: "\<forall>i \<in> set idx. 0 \<le> i \<and> i < int msl"
  shows "\<exists>out a'. Attention_forward a x fc m idx = (Inr out, a')"
proof -
  let ?rot = "\<lambda>row. map2 (\<lambda>heads f. map (rotate f) heads) row fc"
  let ?q0 = "map (map (chunks (nat (n_local_heads a)) (nat (head_dim a)))) (map (map (wq a)) x)"
  let ?k0 = "map (map (chunks (nat (n_local_kv_heads a)) (nat (head_dim a)))) (map (map (wk a)) x)"
  let ?v0 = "map (map (chunks (nat (n_local_kv_heads a)) (nat (head_dim a)))) (map (map (wv a)) x)"
  let ?xq = "map ?rot ?q0" and ?xk = "map ?rot ?k0"
  have w: "0 \<le> n_local_heads a" "0 \<le> n_local_kv_heads a" "0 \<le> head_dim a"
    "n_local_heads a = n_local_kv_heads a * n_rep a"
    "\<forall>v. int (length (wq a v)) = n_local_heads a * head_dim a"
    "\<forall>v. int (length (wk a v)) = n_local_kv_heads a * head_dim a"
    "\<forall>v. int (length (wv a v)) = n_local_kv_heads a * head_dim a"
    "length (cache_k a) = bsz" "length (cache_v a) = bsz"
    "\<forall>c \<in> set (cache_k a). length c = msl" "\<forall>c \<in> set (cache_v a). length c = msl"
    using wf unfolding wf_Attention_def by auto
  have vq: "view_heads (map (map (wq a)) x) (n_local_heads a) (head_dim a) = Inr ?q0"
    unfolding view_heads_Inr using w(1,3,5) by auto
  have vk: "view_heads (map (map (wk a)) x) (n_local_kv_heads a) (head_dim a) = Inr ?k0"
    unfolding view_heads_Inr using w(2,3,6) by auto
  have vv: "view_heads (map (map (wv a)) x) (n_local_kv_heads a) (head_dim a) = Inr ?v0"
    unfolding view_heads_Inr using w(2,3,7) by auto
  have rot: "apply_rotary_emb ?q0 ?k0 fc = Inr (?xq, ?xk)"
    unfolding apply_rotary_emb_Inr using rows lf by auto
  have qkv: "Attention_qkv a x fc = Inr (?xq, ?xk, ?v0)"
    unfolding Attention_qkv_Inr using vq vk vv rot by blast
  let ?ck = "map2 (\<lambda>r s. index_copy_row r idx s) (cache_k a) ?xk"
  let ?cv = "map2 (\<lambda>r s. index_copy_row r idx s) (cache_v a) ?v0"
  have ck: "index_copy (cache_k a) idx ?xk = Inr ?ck"
    unfolding index_copy_Inr using w(8,10) lx rows lf rg by auto
  have cv: "index_copy (cache_v a) idx ?v0 = Inr ?cv"
    unfolding index_copy_Inr using w(9,11) lx rows rg by auto
  have mq: "\<forall>row \<in> set ?xq. length row = length m"
    using rows lf lm by auto
  show ?thesis
    unfolding Attention_forward_Inr using qkv ck cv w(4) mq by blast
qed













lemma length_pad [simp]: "length (pad n v) = n"
  by (simp add: pad_def)








section \<open>Results: the rotary embedding\<close>

lemma view_as_complex_real: "view_as_complex (view_as_real cs) = cs"
  by (induction cs) simp_all

lemma precompute_freqs_cis_nth:
  assumes "p < nat n_end"
  shows "precompute_freqs_cis d n_end theta ! p
       = map (\<lambda>f. cis (real p * f))
           (map (\<lambda>i. 1 / (theta powr (real (2 * i) / real_of_int d))) [0..<nat (d div 2)])"
  using assms by (simp add: precompute_freqs_cis_def Let_def)

lemma map2_mult_twice:
  "map2 (*) (map2 (*) c (map g1 fs)) (map g2 fs) = map2 (*) c (map (\<lambda>f. g1 f * g2 f) fs)"
    for c :: "complex list"
proof (induction fs arbitrary: c)
  case Nil
  then show ?case by simp
next
  case (Cons f fs)
  then show ?case by (cases c) (simp_all add: mult.assoc)
qed

lemma rotate_rotate_table:
  assumes "p1 + p2 < nat n_end"
  shows "rotate (precompute_freqs_cis d n_end theta ! p2)
           (rotate (precompute_freqs_cis d n_end theta ! p1) v)
       = rotate (precompute_freqs_cis d n_end theta ! (p1 + p2)) v"
proof -
  have p: "p1 < nat n_end" "p2 < nat n_end" using assms by simp_all
  have c: "\<And>f. cis (real p1 * f) * cis (real p2 * f) = cis (real (p1 + p2) * f)"
    by (simp add: cis_mult distrib_right)
  show ?thesis
    unfolding rotate_def view_as_complex_real
      precompute_freqs_cis_nth [OF p(1)] precompute_freqs_cis_nth [OF p(2)]
      precompute_freqs_cis_nth [OF assms] map2_mult_twice c ..
qed

lemma rotate_rows_twice:
  assumes "length row = 1" and "\<And>v. rotate f2 (rotate f1 v) = rotate f12 v"
  shows "map2 (\<lambda>heads f. map (rotate f) heads) (map2 (\<lambda>heads f. map (rotate f) heads) row [f1]) [f2]
       = map2 (\<lambda>heads f. map (rotate f) heads) row [f12]"
proof -
  obtain h where "row = [h]" using assms(1) by (cases row) simp_all
  then show ?thesis using assms(2) by simp
qed


text \<open>
  C6: with the table of \<^verbatim>\<open>precompute_freqs_cis\<close> and two positions whose sum is inside
  the table, rotating a vector by the row of the first position and then by the row of
  the second gives the vector rotated by the row of the sum; and so for
  \<^verbatim>\<open>apply_rotary_emb\<close> on queries and keys of a one-position window. The angles add
  because the entries of a column of the table are the powers of one unit complex
  number. In exact arithmetic the two sides are equal.
\<close>

theorem C6_rotary_composition:
  assumes "p1 + p2 < nat n_end"
  shows "rotate (precompute_freqs_cis d n_end theta ! p2)
           (rotate (precompute_freqs_cis d n_end theta ! p1) v)
         = rotate (precompute_freqs_cis d n_end theta ! (p1 + p2)) v
       \<and> (apply_rotary_emb xq xk [precompute_freqs_cis d n_end theta ! p1] = Inr (q1, k1) \<longrightarrow>
            apply_rotary_emb q1 k1 [precompute_freqs_cis d n_end theta ! p2]
            = apply_rotary_emb xq xk [precompute_freqs_cis d n_end theta ! (p1 + p2)])"
proof (intro conjI impI)
  let ?T = "precompute_freqs_cis d n_end theta"
  show "rotate (?T ! p2) (rotate (?T ! p1) v) = rotate (?T ! (p1 + p2)) v"
    by (rule rotate_rotate_table [OF assms])
  assume a: "apply_rotary_emb xq xk [?T ! p1] = Inr (q1, k1)"
  let ?R = "\<lambda>fc row. map2 (\<lambda>heads f. map (rotate f) heads) row fc"
  have r: "\<forall>row \<in> set xq. length row = 1" "\<forall>row \<in> set xk. length row = 1"
    and q1: "q1 = map (?R [?T ! p1]) xq" and k1: "k1 = map (?R [?T ! p1]) xk"
    using a unfolding apply_rotary_emb_Inr by simp_all
  have tw: "\<And>row. length row = 1 \<Longrightarrow> ?R [?T ! p2] (?R [?T ! p1] row) = ?R [?T ! (p1 + p2)] row"
    by (rule rotate_rows_twice) (simp_all add: rotate_rotate_table [OF assms])
  have q2: "map (?R [?T ! p2]) q1 = map (?R [?T ! (p1 + p2)]) xq"
    unfolding q1 using r(1) tw by simp
  have k2: "map (?R [?T ! p2]) k1 = map (?R [?T ! (p1 + p2)]) xk"
    unfolding k1 using r(2) tw by simp
  have r1: "\<forall>row \<in> set q1. length row = 1" "\<forall>row \<in> set k1. length row = 1"
    unfolding q1 k1 using r by simp_all
  have "apply_rotary_emb q1 k1 [?T ! p2] = Inr (map (?R [?T ! p2]) q1, map (?R [?T ! p2]) k1)"
    unfolding apply_rotary_emb_Inr using r1 by simp
  moreover have "apply_rotary_emb xq xk [?T ! (p1 + p2)]
      = Inr (map (?R [?T ! (p1 + p2)]) xq, map (?R [?T ! (p1 + p2)]) xk)"
    unfolding apply_rotary_emb_Inr using r by simp
  ultimately show "apply_rotary_emb q1 k1 [?T ! p2] = apply_rotary_emb xq xk [?T ! (p1 + p2)]"
    using q2 k2 by simp
qed

theorem C6_rotary_composition_witness:
  "(1::nat) + 2 < nat 8
   \<and> rotate (precompute_freqs_cis 4 8 10000 ! 2) (rotate (precompute_freqs_cis 4 8 10000 ! 1) [1, 0, 0, 1])
       = rotate (precompute_freqs_cis 4 8 10000 ! (1 + 2)) [1, 0, 0, 1]
   \<and> apply_rotary_emb [[[[1, 0, 0, 1]]]] [[[[0, 1, 1, 0]]]] [precompute_freqs_cis 4 8 10000 ! 1]
       = Inr ([[[rotate (precompute_freqs_cis 4 8 10000 ! 1) [1, 0, 0, 1]]]],
              [[[rotate (precompute_freqs_cis 4 8 10000 ! 1) [0, 1, 1, 0]]]])
   \<and> apply_rotary_emb [[[rotate (precompute_freqs_cis 4 8 10000 ! 1) [1, 0, 0, 1]]]]
         [[[rotate (precompute_freqs_cis 4 8 10000 ! 1) [0, 1, 1, 0]]]] [precompute_freqs_cis 4 8 10000 ! 2]
       = apply_rotary_emb [[[[1, 0, 0, 1]]]] [[[[0, 1, 1, 0]]]] [precompute_freqs_cis 4 8 10000 ! (1 + 2)]"
proof -
  have h: "(1::nat) + 2 < nat 8" by simp
  have a: "apply_rotary_emb [[[[1, 0, 0, 1]]]] [[[[0, 1, 1, 0]]]] [precompute_freqs_cis 4 8 10000 ! 1]
       = Inr ([[[rotate (precompute_freqs_cis 4 8 10000 ! 1) [1, 0, 0, 1]]]],
              [[[rotate (precompute_freqs_cis 4 8 10000 ! 1) [0, 1, 1, 0]]]])"
    by (simp add: apply_rotary_emb_def)
  show ?thesis
    using h a C6_rotary_composition [OF h, of 4 10000 "[1, 0, 0, 1]" "[[[[1, 0, 0, 1]]]]" "[[[[0, 1, 1, 0]]]]"
        "[[[rotate (precompute_freqs_cis 4 8 10000 ! 1) [1, 0, 0, 1]]]]"
        "[[[rotate (precompute_freqs_cis 4 8 10000 ! 1) [0, 1, 1, 0]]]]"]
    by simp
qed

section \<open>Results: the mask and the scores\<close>

lemma Transformer_init_Inr:
  assumes "Transformer_init ps world_size w = Inr tr"
  shows "params tr = ps" and "0 \<le> max_seq_len ps"
    and "mask tr = triu (replicate (nat (max_seq_len ps)) (replicate (nat (max_seq_len ps)) NegInf)) 1"
    and "freqs_cis tr = precompute_freqs_cis (dim ps div n_heads ps) (max_seq_len ps * 2) 10000"
    and "init_layers ps world_size (mw_layers w) [0..<nat (n_layers ps)] = Inr (layers tr)"
    and "ParallelEmbedding_init (vocab_size ps) (dim ps) world_size = Inr ()"
    and "n_heads ps \<noteq> 0"
proof -
  obtain u ls nrm u2 m where
    e: "ParallelEmbedding_init (vocab_size ps) (dim ps) world_size = Inr u"
    and l: "init_layers ps world_size (mw_layers w) [0..<nat (n_layers ps)] = Inr ls"
    and n: "RMSNorm_init (dim ps) (norm_eps ps) (mw_norm w) = Inr nrm"
    and o: "ColumnParallelLinear_init (dim ps) (vocab_size ps) world_size = Inr u2"
    and h: "n_heads ps \<noteq> 0"
    and f: "full (max_seq_len ps) NegInf = Inr m"
    and t: "tr = \<lparr>params = ps, tok_embeddings = mw_tok_embeddings w, layers = ls, norm = nrm,
            output_linear = mw_output w,
            freqs_cis = precompute_freqs_cis (dim ps div n_heads ps) (max_seq_len ps * 2) 10000,
            mask = triu m 1\<rparr>"
    using assms unfolding Transformer_init_def
    by (auto simp: bind_err_Inr split: if_splits)
  have m: "0 \<le> max_seq_len ps" "m = replicate (nat (max_seq_len ps)) (replicate (nat (max_seq_len ps)) NegInf)"
    using f by (auto simp: full_def split: if_splits)
  show "params tr = ps" using t by simp
  show "0 \<le> max_seq_len ps" by fact
  show "mask tr = triu (replicate (nat (max_seq_len ps)) (replicate (nat (max_seq_len ps)) NegInf)) 1"
    using t m by simp
  show "freqs_cis tr = precompute_freqs_cis (dim ps div n_heads ps) (max_seq_len ps * 2) 10000"
    using t by simp
  show "init_layers ps world_size (mw_layers w) [0..<nat (n_layers ps)] = Inr (layers tr)"
    using t l by simp
  show "ParallelEmbedding_init (vocab_size ps) (dim ps) world_size = Inr ()" using e by simp
  show "n_heads ps \<noteq> 0" by fact
qed

lemma xexp_nonneg: "0 \<le> xexp x"
  by (cases x) simp_all

lemma sum_xexp_pos:
  assumes "j < length xs" "xs ! j \<noteq> NegInf"
  shows "0 < sum_list (map xexp xs)"
proof -
  have "xexp (xs ! j) \<in> set (map xexp xs)" using assms(1) by simp
  then have "xexp (xs ! j) \<le> sum_list (map xexp xs)"
    by (rule member_le_sum_list) (auto simp: xexp_nonneg)
  moreover have "0 < xexp (xs ! j)" using assms(2) by (cases "xs ! j") simp_all
  ultimately show ?thesis by linarith
qed

lemma attn_weights_pos:
  assumes "j < length ks" "j < length mrow" "mrow ! j \<noteq> NegInf"
  shows "0 < attn_weights hdim q mrow ks ! j"
proof -
  let ?s = "map2 (\<lambda>s m. xadd s m) (map (\<lambda>k. dot q k / sqrt (real_of_int hdim)) ks) mrow"
  have n: "?s ! j = xadd (dot q (ks ! j) / sqrt (real_of_int hdim)) (mrow ! j)" and l: "j < length ?s"
    using assms(1,2) by simp_all
  have ne: "?s ! j \<noteq> NegInf" unfolding n using assms(3) by (simp add: xadd_NegInf_iff)
  have "0 < xexp (?s ! j)" using ne by (cases "?s ! j") simp_all
  moreover have "0 < sum_list (map xexp ?s)" by (rule sum_xexp_pos [OF l ne])
  ultimately show ?thesis
    using l unfolding attn_weights_def softmax_def by simp
qed

lemma Attention_scores_entry:
  assumes "b < length xq" "b < length (cache_k a)" "t < length (xq ! b)" "t < length msk"
    and "h < nat (n_local_heads a)"
  shows "Attention_scores a xq msk ! b ! t ! h
       = attn_weights (head_dim a) (xq ! b ! t ! h) (msk ! t)
           (map (\<lambda>kv. kv ! h) (repeat_kv (cache_k a) (n_rep a) ! b))"
  using assms by (simp add: Attention_scores_nth)

lemma index_select_nth:
  assumes "index_select xs idx = Inr ys" "t < length idx"
  shows "ys ! t = xs ! nat (idx ! t)" and "0 \<le> idx ! t" and "nat (idx ! t) < length xs"
proof -
  have a: "\<forall>i \<in> set idx. 0 \<le> i \<and> i < int (length xs)" and y: "ys = map (\<lambda>i. xs ! nat i) idx"
    using assms(1) unfolding index_select_Inr by blast+
  have "idx ! t \<in> set idx" using assms(2) by simp
  then have b: "0 \<le> idx ! t \<and> idx ! t < int (length xs)" using a by blast
  show "ys ! t = xs ! nat (idx ! t)" using y assms(2) by simp
  show "0 \<le> idx ! t" using b by simp
  show "nat (idx ! t) < length xs" using b by linarith
qed

lemma tiny_attention_init: "Attention_init tiny_args 1 tiny_block_weights = Inr tiny_attention"
  by (simp add: Attention_init_def tiny_args_def default_ModelArgs_def tiny_block_weights_def
      tiny_attention_def bind_err_def divide_and_check_no_remainder_def
      ColumnParallelLinear_init_def RowParallelLinear_init_def zeros4_def)

lemma tiny_hidden_dim: "FeedForward_hidden_dim 32 256 None = Inr 256"
  by (simp add: FeedForward_hidden_dim_def py_int_def)

lemma tiny_model_init: "Transformer_init tiny_args 1 tiny_weights = Inr tiny_model"
  using tiny_attention_init tiny_hidden_dim
  by (simp add: Transformer_init_def TransformerBlock_init_def FeedForward_init_def RMSNorm_init_def
      tiny_args_def default_ModelArgs_def tiny_block_weights_def tiny_weights_def
      tiny_model_def bind_err_def divide_and_check_no_remainder_def
      ColumnParallelLinear_init_def RowParallelLinear_init_def ParallelEmbedding_init_def full_def)

lemma wf_tiny_attention: "wf_Attention 1 4 tiny_attention"
  by (simp add: wf_Attention_def tiny_attention_def)

lemma masked_score_zero:
  assumes sel: "index_select (triu (replicate n (replicate n NegInf)) 1) idx = Inr msk"
    and b: "b < length xq" "b < length (cache_k a)" and t: "t < length (xq ! b)" "t < length idx"
    and h: "h < nat (n_local_heads a)"
    and j: "j < length (cache_k a ! b)" "j < n"
  shows "length (Attention_scores a xq msk ! b ! t ! h) = min (length (cache_k a ! b)) n"
    and "idx ! t < int j \<Longrightarrow> Attention_scores a xq msk ! b ! t ! h ! j = 0"
    and "\<not> idx ! t < int j \<Longrightarrow> 0 < Attention_scores a xq msk ! b ! t ! h ! j"
proof -
  let ?M = "triu (replicate n (replicate n NegInf)) 1"
  note s = index_select_nth [OF sel t(2)]
  have i: "nat (idx ! t) < n" using s(3) by (simp add: length_triu_full)
  have lm: "length msk = length idx" using sel unfolding index_select_Inr by simp
  have row: "msk ! t = ?M ! nat (idx ! t)" by (rule s(1))
  have lrow: "length (msk ! t) = n" unfolding row using i by (simp add: length_triu_full)
  have e: "msk ! t ! j = (if nat (idx ! t) < j then NegInf else Fin 0)"
    unfolding row by (rule triu_full_nth [OF i j(2)])
  let ?ks = "map (\<lambda>kv. kv ! h) (repeat_kv (cache_k a) (n_rep a) ! b)"
  have lk: "length ?ks = length (cache_k a ! b)" using b(2) by (simp add: repeat_kv_row_length)
  have sc: "Attention_scores a xq msk ! b ! t ! h = attn_weights (head_dim a) (xq ! b ! t ! h) (msk ! t) ?ks"
    using Attention_scores_entry [OF b t(1) _ h] t(2) lm by simp
  show "length (Attention_scores a xq msk ! b ! t ! h) = min (length (cache_k a ! b)) n"
    unfolding sc length_attn_weights lk lrow ..
  have jk: "j < length ?ks" "j < length (msk ! t)" using j lk lrow by simp_all
  show "Attention_scores a xq msk ! b ! t ! h ! j = 0" if "idx ! t < int j"
  proof -
    have "nat (idx ! t) < j" using that s(2) by linarith
    then have "msk ! t ! j = NegInf" using e by simp
    then show ?thesis unfolding sc by (rule attn_weights_masked [OF jk])
  qed
  show "0 < Attention_scores a xq msk ! b ! t ! h ! j" if "\<not> idx ! t < int j"
  proof -
    have "\<not> nat (idx ! t) < j" using that s(2) by linarith
    then have "msk ! t ! j \<noteq> NegInf" using e by simp
    then show ?thesis unfolding sc by (rule attn_weights_pos [OF jk])
  qed
qed

text \<open>
  C4: the mask of a constructed model is 0 on and below the diagonal and negative
  infinity above it; and in the score tensor that \<^verbatim>\<open>Attention.forward\<close> computes with
  the rows of this mask selected by \<^verbatim>\<open>input_indexes\<close>, the weight that the query at
  window offset \<open>t\<close>, whose position is \<open>idx ! t\<close>, gives to a key position \<open>j\<close> beyond
  its own is exactly 0, for every batch row and head.
\<close>

theorem C4_causal_mask:
  assumes init: "Transformer_init ps world_size w = Inr tr"
  shows "(\<forall>i < nat (max_seq_len ps). \<forall>j < nat (max_seq_len ps).
            mask tr ! i ! j = (if j \<le> i then Fin 0 else NegInf))
       \<and> (index_select (mask tr) idx = Inr msk \<longrightarrow> b < length xq \<longrightarrow> b < length (cache_k a)
            \<longrightarrow> t < length (xq ! b) \<longrightarrow> t < length idx \<longrightarrow> h < nat (n_local_heads a)
            \<longrightarrow> j < length (cache_k a ! b) \<longrightarrow> j < nat (max_seq_len ps) \<longrightarrow> idx ! t < int j
            \<longrightarrow> Attention_scores a xq msk ! b ! t ! h ! j = 0)"
proof (intro conjI allI impI)
  note m = Transformer_init_Inr(3) [OF init]
  fix i j assume "i < nat (max_seq_len ps)" "j < nat (max_seq_len ps)"
  then show "mask tr ! i ! j = (if j \<le> i then Fin 0 else NegInf)"
    unfolding m by (simp add: triu_full_nth)
next
  note m = Transformer_init_Inr(3) [OF init]
  assume "index_select (mask tr) idx = Inr msk" "b < length xq" "b < length (cache_k a)"
    "t < length (xq ! b)" "t < length idx" "h < nat (n_local_heads a)"
    "j < length (cache_k a ! b)" "j < nat (max_seq_len ps)" "idx ! t < int j"
  then show "Attention_scores a xq msk ! b ! t ! h ! j = 0"
    unfolding m by (rule masked_score_zero(2))
qed

theorem C4_causal_mask_witness:
  "Transformer_init tiny_args 1 tiny_weights = Inr tiny_model
   \<and> mask tiny_model ! 1 ! 1 = Fin 0 \<and> mask tiny_model ! 2 ! 1 = Fin 0 \<and> mask tiny_model ! 1 ! 2 = NegInf
   \<and> index_select (mask tiny_model) [1] = Inr [mask tiny_model ! 1]
   \<and> Attention_scores tiny_attention [[[[1, 0, 0, 0], [0, 1, 0, 0]]]] [mask tiny_model ! 1] ! 0 ! 0 ! 0 ! 2 = 0"
proof -
  have sel: "index_select (mask tiny_model) [1] = Inr [mask tiny_model ! 1]"
    by (simp add: index_select_def tiny_model_def triu_def)
  have msl: "max_seq_len tiny_args = 4" by (simp add: tiny_args_def default_ModelArgs_def)
  note c = C4_causal_mask [OF tiny_model_init, of "[1]" "[mask tiny_model ! 1]" 0
      "[[[[1, 0, 0, 0], [0, 1, 0, 0]]]]" tiny_attention 0 0 2]
  have m: "mask tiny_model ! 1 ! 1 = Fin 0" "mask tiny_model ! 2 ! 1 = Fin 0" "mask tiny_model ! 1 ! 2 = NegInf"
    using c unfolding msl by simp_all
  have "Attention_scores tiny_attention [[[[1, 0, 0, 0], [0, 1, 0, 0]]]] [mask tiny_model ! 1] ! 0 ! 0 ! 0 ! 2 = 0"
    using c sel unfolding msl by (simp add: tiny_attention_def)
  then show ?thesis using tiny_model_init m sel by simp
qed





section \<open>Results: what a call writes into the caches\<close>

lemma index_copy_row_nth_written:
  "distinct idx \<Longrightarrow> length src = length idx \<Longrightarrow> \<forall>i \<in> set idx. 0 \<le> i \<and> i < int (length c)
   \<Longrightarrow> t < length idx \<Longrightarrow> index_copy_row c idx src ! nat (idx ! t) = src ! t"
proof (induction c idx src arbitrary: t rule: index_copy_row.induct)
  case (1 c p ps s ss)
  show ?case
  proof (cases t)
    case 0
    have "\<forall>i \<in> set ps. nat i \<noteq> nat p"
    proof
      fix i assume i: "i \<in> set ps"
      then have "i \<noteq> p" using "1.prems"(1) by auto
      moreover have "0 \<le> i" "0 \<le> p" using "1.prems"(3) i by simp_all
      ultimately show "nat i \<noteq> nat p" by simp
    qed
    then have "index_copy_row (c[nat p := s]) ps ss ! nat p = (c[nat p := s]) ! nat p"
      by (rule index_copy_row_nth_other)
    moreover have "nat p < length c" using "1.prems"(3) by auto
    ultimately show ?thesis using 0 by simp
  next
    case (Suc t')
    have "index_copy_row (c[nat p := s]) ps ss ! nat (ps ! t') = ss ! t'"
      using "1.IH" [of t'] "1.prems" Suc by simp
    then show ?thesis using Suc by simp
  qed
qed simp_all

lemma index_copy_frame:
  assumes "index_copy c idx src = Inr c'" and b: "b < length c"
  shows "length c' = length c" and "length (c' ! b) = length (c ! b)"
    and "int j \<notin> set idx \<Longrightarrow> c' ! b ! j = c ! b ! j"
    and "distinct idx \<Longrightarrow> t < length idx \<Longrightarrow> c' ! b ! nat (idx ! t) = src ! b ! t"
proof -
  have l: "length src = length c" and sl: "\<forall>s \<in> set src. length s = length idx"
    and rg: "\<forall>r \<in> set c. \<forall>i \<in> set idx. 0 \<le> i \<and> i < int (length r)"
    and c': "c' = map2 (\<lambda>r s. index_copy_row r idx s) c src"
    using assms(1) unfolding index_copy_Inr by blast+
  have n: "c' ! b = index_copy_row (c ! b) idx (src ! b)" using c' l b by simp
  have "c ! b \<in> set c" using b by simp
  then have rb: "\<forall>i \<in> set idx. 0 \<le> i \<and> i < int (length (c ! b))" using rg by blast
  show "length c' = length c" using c' l by simp
  show "length (c' ! b) = length (c ! b)" using n by (simp add: length_index_copy_row)
  show "c' ! b ! j = c ! b ! j" if "int j \<notin> set idx"
  proof -
    have "\<forall>i \<in> set idx. nat i \<noteq> j"
    proof
      fix i assume i: "i \<in> set idx"
      then have "0 \<le> i" "i \<noteq> int j" using rb that by auto
      then show "nat i \<noteq> j" by auto
    qed
    then show ?thesis unfolding n by (rule index_copy_row_nth_other)
  qed
  show "c' ! b ! nat (idx ! t) = src ! b ! t" if "distinct idx" "t < length idx"
  proof -
    have "length (src ! b) = length idx" using sl l b by simp
    then show ?thesis unfolding n using index_copy_row_nth_written [OF that(1) _ rb that(2)] by simp
  qed
qed

lemma Attention_forward_caches:
  "(cache_k (snd (Attention_forward a x fc msk idx)) = cache_k a
      \<or> (\<exists>src. index_copy (cache_k a) idx src = Inr (cache_k (snd (Attention_forward a x fc msk idx)))))
   \<and> (cache_v (snd (Attention_forward a x fc msk idx)) = cache_v a
      \<or> (\<exists>src. index_copy (cache_v a) idx src = Inr (cache_v (snd (Attention_forward a x fc msk idx)))))"
proof (cases "Attention_qkv a x fc")
  case (Inl e)
  then show ?thesis by (simp add: Attention_forward_def bind_err_def)
next
  case (Inr t)
  obtain xq xk xv where t: "t = (xq, xk, xv)" by (cases t)
  show ?thesis
  proof (cases "index_copy (cache_k a) idx xk")
    case (Inl e)
    then show ?thesis using Inr t by (simp add: Attention_forward_def bind_err_def)
  next
    case ck: (Inr ck)
    show ?thesis
    proof (cases "index_copy (cache_v a) idx xv")
      case (Inl e)
      then show ?thesis using Inr t ck by (auto simp add: Attention_forward_def bind_err_def)
    next
      case cv: (Inr cv)
      show ?thesis using Inr t ck cv
        by (auto simp add: Attention_forward_def bind_err_def Let_def)
    qed
  qed
qed

lemma Attention_init_caches:
  assumes "Attention_init args world_size w = Inr a"
  shows "0 \<le> max_batch_size args" "0 \<le> max_seq_len args" "0 \<le> n_local_kv_heads a" "0 \<le> head_dim a"
    and "cache_k a = replicate (nat (max_batch_size args)) (replicate (nat (max_seq_len args))
            (replicate (nat (n_local_kv_heads a)) (replicate (nat (head_dim a)) 0)))"
    and "cache_v a = cache_k a"
  using assms unfolding Attention_init_def zeros4_def
  by (auto simp: bind_err_Inr Let_def split: if_splits)

lemma index_copy_row_last_wins:
  "t < length idx \<Longrightarrow>
     \<exists>t' < length idx. idx ! t' = idx ! t
        \<and> (\<forall>(c :: 'a list) src. length src = length idx
              \<longrightarrow> (\<forall>i \<in> set idx. 0 \<le> i \<and> i < int (length c))
              \<longrightarrow> index_copy_row c idx src ! nat (idx ! t) = src ! t')"
proof (induction idx arbitrary: t)
  case Nil
  then show ?case by simp
next
  case (Cons p ps)
  show ?case
  proof (cases "(p # ps) ! t \<in> set ps")
    case True
    then obtain t2 where t2: "t2 < length ps" "ps ! t2 = (p # ps) ! t"
      by (metis in_set_conv_nth)
    obtain t' where t': "t' < length ps" "ps ! t' = ps ! t2"
      and w: "\<forall>(c :: 'a list) src. length src = length ps
              \<longrightarrow> (\<forall>i \<in> set ps. 0 \<le> i \<and> i < int (length c))
              \<longrightarrow> index_copy_row c ps src ! nat (ps ! t2) = src ! t'"
      using Cons.IH [OF t2(1)] by blast
    have "\<forall>(c :: 'a list) src. length src = length (p # ps)
              \<longrightarrow> (\<forall>i \<in> set (p # ps). 0 \<le> i \<and> i < int (length c))
              \<longrightarrow> index_copy_row c (p # ps) src ! nat ((p # ps) ! t) = src ! Suc t'"
    proof (intro allI impI)
      fix c :: "'a list" and src :: "'a list"
      assume l: "length src = length (p # ps)"
        and r: "\<forall>i \<in> set (p # ps). 0 \<le> i \<and> i < int (length c)"
      obtain s ss where src: "src = s # ss" using l by (cases src) simp_all
      have "index_copy_row (c[nat p := s]) ps ss ! nat (ps ! t2) = ss ! t'"
        using w [rule_format, of ss "c[nat p := s]"] l r src by simp
      then show "index_copy_row c (p # ps) src ! nat ((p # ps) ! t) = src ! Suc t'"
        using src t2(2) by simp
    qed
    then show ?thesis using t' t2(2) by (intro exI [of _ "Suc t'"]) simp
  next
    case False
    have t0: "t = 0"
    proof (cases t)
      case 0
      then show ?thesis .
    next
      case (Suc k)
      then have "(p # ps) ! t \<in> set ps" using Cons.prems by simp
      then show ?thesis using False by simp
    qed
    then have pn: "p \<notin> set ps" using False by simp
    have "\<forall>(c :: 'a list) src. length src = length (p # ps)
              \<longrightarrow> (\<forall>i \<in> set (p # ps). 0 \<le> i \<and> i < int (length c))
              \<longrightarrow> index_copy_row c (p # ps) src ! nat ((p # ps) ! t) = src ! 0"
    proof (intro allI impI)
      fix c :: "'a list" and src :: "'a list"
      assume l: "length src = length (p # ps)"
        and r: "\<forall>i \<in> set (p # ps). 0 \<le> i \<and> i < int (length c)"
      obtain s ss where src: "src = s # ss" using l by (cases src) simp_all
      have "\<forall>i \<in> set ps. nat i \<noteq> nat p"
      proof
        fix i assume i: "i \<in> set ps"
        then have "i \<noteq> p" using pn by auto
        moreover have "0 \<le> i" "0 \<le> p" using r i by simp_all
        ultimately show "nat i \<noteq> nat p" by simp
      qed
      then have "index_copy_row (c[nat p := s]) ps ss ! nat p = (c[nat p := s]) ! nat p"
        by (rule index_copy_row_nth_other)
      moreover have "nat p < length c" using r by auto
      ultimately show "index_copy_row c (p # ps) src ! nat ((p # ps) ! t) = src ! 0"
        using src t0 by simp
    qed
    then show ?thesis using t0 by (intro exI [of _ 0]) simp
  qed
qed

lemma index_copy_written:
  assumes t: "t < length idx"
  shows "\<exists>t' < length idx. idx ! t' = idx ! t
          \<and> (\<forall>(c :: 'a list list) src c' b. index_copy c idx src = Inr c' \<longrightarrow> b < length c
                \<longrightarrow> c' ! b ! nat (idx ! t) = src ! b ! t')"
proof -
  obtain t' where t': "t' < length idx" "idx ! t' = idx ! t"
    and w: "\<forall>(r :: 'a list) s. length s = length idx
              \<longrightarrow> (\<forall>i \<in> set idx. 0 \<le> i \<and> i < int (length r))
              \<longrightarrow> index_copy_row r idx s ! nat (idx ! t) = s ! t'"
    using index_copy_row_last_wins [OF t] by blast
  have "\<forall>(c :: 'a list list) src c' b. index_copy c idx src = Inr c' \<longrightarrow> b < length c
                \<longrightarrow> c' ! b ! nat (idx ! t) = src ! b ! t'"
  proof (intro allI impI)
    fix c :: "'a list list" and src c' :: "'a list list" and b
    assume ic: "index_copy c idx src = Inr c'" and b: "b < length c"
    have l: "length src = length c" and sl: "\<forall>s \<in> set src. length s = length idx"
      and rg: "\<forall>r \<in> set c. \<forall>i \<in> set idx. 0 \<le> i \<and> i < int (length r)"
      and c': "c' = map2 (\<lambda>r s. index_copy_row r idx s) c src"
      using ic unfolding index_copy_Inr by blast+
    have n: "c' ! b = index_copy_row (c ! b) idx (src ! b)" using c' l b by simp
    have "c ! b \<in> set c" "src ! b \<in> set src" using b l by simp_all
    then have "length (src ! b) = length idx" "\<forall>i \<in> set idx. 0 \<le> i \<and> i < int (length (c ! b))"
      using sl rg by blast+
    then show "c' ! b ! nat (idx ! t) = src ! b ! t'"
      unfolding n using w by blast
  qed
  then show ?thesis using t' by blast
qed

text \<open>
  C2: \<^verbatim>\<open>Attention.__init__\<close>, when it returns, has allocated both caches with shape
  (\<^verbatim>\<open>max_batch_size\<close>, \<^verbatim>\<open>max_seq_len\<close>, \<^verbatim>\<open>n_local_kv_heads\<close>, \<^verbatim>\<open>head_dim\<close>), all
  zeros. Every \<^verbatim>\<open>Attention.forward\<close> call, whatever its outcome, leaves both caches
  with their batch rows and their lengths and leaves the entry at every sequence
  position that is not listed in \<^verbatim>\<open>input_indexes\<close> as it was; and a call that returns
  leaves at every listed position \<open>idx ! t\<close> of every batch row the rotated key
  projection and the value projection that the call computed for a window offset with
  that position, which is the offset \<open>t\<close> itself when no position is listed twice.
\<close>

theorem C2_cache_write_discipline:
  "(Attention_init args world_size w = Inr a0 \<longrightarrow>
      0 \<le> max_batch_size args \<and> 0 \<le> max_seq_len args
      \<and> 0 \<le> n_local_kv_heads a0 \<and> 0 \<le> head_dim a0
      \<and> cache_k a0 = replicate (nat (max_batch_size args)) (replicate (nat (max_seq_len args))
            (replicate (nat (n_local_kv_heads a0)) (replicate (nat (head_dim a0)) 0)))
      \<and> cache_v a0 = replicate (nat (max_batch_size args)) (replicate (nat (max_seq_len args))
            (replicate (nat (n_local_kv_heads a0)) (replicate (nat (head_dim a0)) 0))))
   \<and> length (cache_k (snd (Attention_forward a x fc msk idx))) = length (cache_k a)
   \<and> length (cache_v (snd (Attention_forward a x fc msk idx))) = length (cache_v a)
   \<and> (\<forall>b j. int j \<notin> set idx \<longrightarrow>
         (b < length (cache_k a) \<longrightarrow>
            length (cache_k (snd (Attention_forward a x fc msk idx)) ! b) = length (cache_k a ! b)
            \<and> cache_k (snd (Attention_forward a x fc msk idx)) ! b ! j = cache_k a ! b ! j)
         \<and> (b < length (cache_v a) \<longrightarrow>
            length (cache_v (snd (Attention_forward a x fc msk idx)) ! b) = length (cache_v a ! b)
            \<and> cache_v (snd (Attention_forward a x fc msk idx)) ! b ! j = cache_v a ! b ! j))
   \<and> (Attention_forward a x fc msk idx = (Inr out, a') \<longrightarrow>
         (\<exists>xq xk xv. Attention_qkv a x fc = Inr (xq, xk, xv)
            \<and> (\<forall>b < length x. \<forall>t < length idx.
                  0 \<le> idx ! t \<and> nat (idx ! t) < length (cache_k a' ! b)
                  \<and> (\<exists>t' < length idx. idx ! t' = idx ! t
                        \<and> cache_k a' ! b ! nat (idx ! t) = xk ! b ! t'
                        \<and> cache_v a' ! b ! nat (idx ! t) = xv ! b ! t')
                  \<and> (distinct idx \<longrightarrow> cache_k a' ! b ! nat (idx ! t) = xk ! b ! t
                        \<and> cache_v a' ! b ! nat (idx ! t) = xv ! b ! t))))"
proof (intro conjI allI impI)
  assume i: "Attention_init args world_size w = Inr a0"
  note c = Attention_init_caches [OF i]
  show "0 \<le> max_batch_size args" "0 \<le> max_seq_len args" "0 \<le> n_local_kv_heads a0" "0 \<le> head_dim a0"
    by (rule c)+
  show "cache_k a0 = replicate (nat (max_batch_size args)) (replicate (nat (max_seq_len args))
            (replicate (nat (n_local_kv_heads a0)) (replicate (nat (head_dim a0)) 0)))"
    by (rule c(5))
  show "cache_v a0 = replicate (nat (max_batch_size args)) (replicate (nat (max_seq_len args))
            (replicate (nat (n_local_kv_heads a0)) (replicate (nat (head_dim a0)) 0)))"
    using c(5,6) by simp
next
  let ?a' = "snd (Attention_forward a x fc msk idx)"
  note cs = Attention_forward_caches [of a x fc msk idx]
  show "length (cache_k ?a') = length (cache_k a)"
    using cs index_copy_length(1) by fastforce
  show "length (cache_v ?a') = length (cache_v a)"
    using cs index_copy_length(1) by fastforce
next
  let ?a' = "snd (Attention_forward a x fc msk idx)"
  note cs = Attention_forward_caches [of a x fc msk idx]
  fix b j assume j: "int j \<notin> set idx" and b: "b < length (cache_k a)"
  show "length (cache_k ?a' ! b) = length (cache_k a ! b)"
    using cs index_copy_frame(2) [OF _ b] by fastforce
  show "cache_k ?a' ! b ! j = cache_k a ! b ! j"
    using cs index_copy_frame(3) [OF _ b j] by fastforce
next
  let ?a' = "snd (Attention_forward a x fc msk idx)"
  note cs = Attention_forward_caches [of a x fc msk idx]
  fix b j assume j: "int j \<notin> set idx" and b: "b < length (cache_v a)"
  show "length (cache_v ?a' ! b) = length (cache_v a ! b)"
    using cs index_copy_frame(2) [OF _ b] by fastforce
  show "cache_v ?a' ! b ! j = cache_v a ! b ! j"
    using cs index_copy_frame(3) [OF _ b j] by fastforce
next
  assume one: "Attention_forward a x fc msk idx = (Inr out, a')"
  obtain xq xk xv ck cv where
    qkv: "Attention_qkv a x fc = Inr (xq, xk, xv)"
    and ck: "index_copy (cache_k a) idx xk = Inr ck"
    and cv: "index_copy (cache_v a) idx xv = Inr cv"
    and a': "a' = a\<lparr>cache_k := ck, cache_v := cv\<rparr>"
    using one unfolding Attention_forward_Inr by blast
  note sh = Attention_qkv_shape [OF qkv]
  have lk: "length (cache_k a) = length x" and lv: "length (cache_v a) = length x"
    using index_copy_length(2) [OF ck] index_copy_length(2) [OF cv] sh(2,3) by simp_all
  have "\<forall>b < length x. \<forall>t < length idx.
          0 \<le> idx ! t \<and> nat (idx ! t) < length (cache_k a' ! b)
          \<and> (\<exists>t' < length idx. idx ! t' = idx ! t
                \<and> cache_k a' ! b ! nat (idx ! t) = xk ! b ! t'
                \<and> cache_v a' ! b ! nat (idx ! t) = xv ! b ! t')
          \<and> (distinct idx \<longrightarrow> cache_k a' ! b ! nat (idx ! t) = xk ! b ! t
                \<and> cache_v a' ! b ! nat (idx ! t) = xv ! b ! t)"
  proof (intro allI impI)
    fix b t assume b: "b < length x" and t: "t < length idx"
    have bk: "b < length (cache_k a)" and bv: "b < length (cache_v a)" using b lk lv by simp_all
    have "cache_k a ! b \<in> set (cache_k a)" "idx ! t \<in> set idx" using bk t by simp_all
    then have r: "0 \<le> idx ! t \<and> idx ! t < int (length (cache_k a ! b))"
      using ck unfolding index_copy_Inr by blast
    have "length (ck ! b) = length (cache_k a ! b)" by (rule index_copy_frame(2) [OF ck bk])
    moreover have "nat (idx ! t) < length (cache_k a ! b)" using r by linarith
    ultimately have in_range: "nat (idx ! t) < length (cache_k a' ! b)" using a' by simp
    obtain t' where t': "t' < length idx" "idx ! t' = idx ! t"
      and w: "\<forall>(c :: real list list list list) src c' b. index_copy c idx src = Inr c' \<longrightarrow> b < length c
                \<longrightarrow> c' ! b ! nat (idx ! t) = src ! b ! t'"
      using index_copy_written [OF t] by blast
    have last: "cache_k a' ! b ! nat (idx ! t) = xk ! b ! t'" "cache_v a' ! b ! nat (idx ! t) = xv ! b ! t'"
      using w [rule_format, OF ck bk] w [rule_format, OF cv bv] a' by simp_all
    have exact: "distinct idx \<longrightarrow> cache_k a' ! b ! nat (idx ! t) = xk ! b ! t
                \<and> cache_v a' ! b ! nat (idx ! t) = xv ! b ! t"
      using index_copy_frame(4) [OF ck bk _ t] index_copy_frame(4) [OF cv bv _ t] a' by simp
    show "0 \<le> idx ! t \<and> nat (idx ! t) < length (cache_k a' ! b)
          \<and> (\<exists>t' < length idx. idx ! t' = idx ! t
                \<and> cache_k a' ! b ! nat (idx ! t) = xk ! b ! t'
                \<and> cache_v a' ! b ! nat (idx ! t) = xv ! b ! t')
          \<and> (distinct idx \<longrightarrow> cache_k a' ! b ! nat (idx ! t) = xk ! b ! t
                \<and> cache_v a' ! b ! nat (idx ! t) = xv ! b ! t)"
      using r in_range t' last exact by blast
  qed
  then show "\<exists>xq xk xv. Attention_qkv a x fc = Inr (xq, xk, xv)
            \<and> (\<forall>b < length x. \<forall>t < length idx.
                  0 \<le> idx ! t \<and> nat (idx ! t) < length (cache_k a' ! b)
                  \<and> (\<exists>t' < length idx. idx ! t' = idx ! t
                        \<and> cache_k a' ! b ! nat (idx ! t) = xk ! b ! t'
                        \<and> cache_v a' ! b ! nat (idx ! t) = xv ! b ! t')
                  \<and> (distinct idx \<longrightarrow> cache_k a' ! b ! nat (idx ! t) = xk ! b ! t
                        \<and> cache_v a' ! b ! nat (idx ! t) = xv ! b ! t))"
    using qkv by blast
qed

theorem C2_cache_write_discipline_witness:
  "Attention_init tiny_args 1 tiny_block_weights = Inr tiny_attention
   \<and> cache_k tiny_attention = replicate 1 (replicate 4 (replicate 1 (replicate 4 0)))
   \<and> cache_v tiny_attention = replicate 1 (replicate 4 (replicate 1 (replicate 4 0)))
   \<and> distinct [1 :: int]
   \<and> (\<exists>out a' xq xk xv.
        Attention_forward tiny_attention [[replicate 8 1]] [precompute_freqs_cis 4 8 10000 ! 1]
            [mask tiny_model ! 1] [1] = (Inr out, a')
        \<and> Attention_qkv tiny_attention [[replicate 8 1]] [precompute_freqs_cis 4 8 10000 ! 1]
            = Inr (xq, xk, xv)
        \<and> cache_k a' ! 0 ! 1 = xk ! 0 ! 0 \<and> cache_v a' ! 0 ! 1 = xv ! 0 ! 0
        \<and> cache_k a' ! 0 ! 0 = replicate 1 (replicate 4 0)
        \<and> cache_v a' ! 0 ! 2 = replicate 1 (replicate 4 0))"
proof -
  let ?x = "[[replicate 8 1]] :: real list list list"
  let ?fc = "[precompute_freqs_cis 4 8 10000 ! 1]"
  let ?m = "[mask tiny_model ! 1]"
  obtain out a' where one: "Attention_forward tiny_attention ?x ?fc ?m [1] = (Inr out, a')"
    using Attention_forward_wf [OF wf_tiny_attention, of ?x "[1]" ?fc ?m] by auto
  note c = C2_cache_write_discipline [of tiny_args 1 tiny_block_weights tiny_attention
      tiny_attention ?x ?fc ?m "[1]" out a']
  have s: "snd (Attention_forward tiny_attention ?x ?fc ?m [1]) = a'" using one by simp
  have k: "cache_k tiny_attention = replicate 1 (replicate 4 (replicate 1 (replicate 4 0)))"
    "cache_v tiny_attention = replicate 1 (replicate 4 (replicate 1 (replicate 4 0)))"
    by (simp_all add: tiny_attention_def)
  have d: "distinct [1 :: int]" by simp
  obtain xq xk xv where
    qkv: "Attention_qkv tiny_attention ?x ?fc = Inr (xq, xk, xv)"
    and w: "\<forall>b < length ?x. \<forall>t < length [1 :: int].
                  distinct [1 :: int] \<longrightarrow> cache_k a' ! b ! nat ([1 :: int] ! t) = xk ! b ! t
                    \<and> cache_v a' ! b ! nat ([1 :: int] ! t) = xv ! b ! t"
    using c [THEN conjunct2, THEN conjunct2, THEN conjunct2, THEN conjunct2, rule_format, OF one]
    by blast
  have fr: "\<forall>b j. int j \<notin> set [1] \<longrightarrow>
         (b < length (cache_k tiny_attention) \<longrightarrow> cache_k a' ! b ! j = cache_k tiny_attention ! b ! j)
         \<and> (b < length (cache_v tiny_attention) \<longrightarrow> cache_v a' ! b ! j = cache_v tiny_attention ! b ! j)"
    using c [THEN conjunct2, THEN conjunct2, THEN conjunct2, THEN conjunct1] unfolding s by blast
  have "cache_k a' ! 0 ! 0 = replicate 1 (replicate 4 0)"
    using fr [rule_format, of 0 0] by (simp add: tiny_attention_def)
  moreover have "cache_v a' ! 0 ! 2 = replicate 1 (replicate 4 0)"
    using fr [rule_format, of 2 0] by (simp add: tiny_attention_def)
  moreover have "cache_k a' ! 0 ! 1 = xk ! 0 ! 0 \<and> cache_v a' ! 0 ! 1 = xv ! 0 ! 0"
    using w [rule_format, of 0 0] by simp
  ultimately show ?thesis using tiny_attention_init k one qkv d by blast
qed

section \<open>Results: what construction checks\<close>

lemma divide_and_check_Inr:
  "divide_and_check_no_remainder n d = Inr q \<longleftrightarrow> (d \<noteq> 0 \<and> n mod d = 0 \<and> q = n div d)"
  by (auto simp: divide_and_check_no_remainder_def)

lemma Attention_init_Inr:
  assumes "Attention_init args world_size w = Inr a"
  shows "world_size \<noteq> 0"
    and "n_kv_heads a = (case ModelArgs.n_kv_heads args of None \<Rightarrow> n_heads args | Some k \<Rightarrow> k)"
    and "n_heads args mod world_size = 0" and "n_kv_heads a mod world_size = 0"
    and "n_local_heads a = n_heads args div world_size"
    and "n_local_kv_heads a = n_kv_heads a div world_size"
    and "n_local_kv_heads a \<noteq> 0" and "n_heads args \<noteq> 0"
    and "n_rep a = n_local_heads a div n_local_kv_heads a"
    and "head_dim a = dim args div n_heads args"
  using assms unfolding Attention_init_def
  by (auto simp: bind_err_Inr divide_and_check_Inr Let_def split: if_splits)

lemma TransformerBlock_init_Inr:
  assumes "TransformerBlock_init lid args world_size w = Inr l"
  shows "Attention_init args world_size w = Inr (attention l)"
  using assms unfolding TransformerBlock_init_def
  by (auto simp: bind_err_Inr split: if_splits)






section \<open>Results: a constructed model is well-shaped\<close>

text \<open>
  The shape that the results on \<^verbatim>\<open>forward\<close> ask of a model is the one construction
  establishes, given layer functions of the right widths, an even head dimension and a
  head count that is a multiple of the key/value head count.
\<close>

lemma Attention_init_wf:
  assumes i: "Attention_init args world_size w = Inr a"
    and wq: "\<forall>v. int (length (bw_wq w v)) = n_heads args div world_size * (dim args div n_heads args)"
    and wk: "\<forall>v. int (length (bw_wk w v))
               = (case ModelArgs.n_kv_heads args of None \<Rightarrow> n_heads args | Some k \<Rightarrow> k) div world_size
                 * (dim args div n_heads args)"
    and wv: "\<forall>v. int (length (bw_wv w v))
               = (case ModelArgs.n_kv_heads args of None \<Rightarrow> n_heads args | Some k \<Rightarrow> k) div world_size
                 * (dim args div n_heads args)"
    and ev: "even (dim args div n_heads args)"
    and nn: "0 \<le> n_heads args div world_size"
    and rep: "n_local_heads a = n_local_kv_heads a * n_rep a"
  shows "wf_Attention (nat (max_batch_size args)) (nat (max_seq_len args)) a"
    and "wq a = bw_wq w" and "wo a = bw_wo w"
proof -
  note f = Attention_init_Inr [OF i]
  note c = Attention_init_caches [OF i]
  have fn: "wq a = bw_wq w" "wk a = bw_wk w" "wv a = bw_wv w" "wo a = bw_wo w"
    using i unfolding Attention_init_def
    by (auto simp: bind_err_Inr Let_def split: if_splits)
  show "wq a = bw_wq w" "wo a = bw_wo w" by (rule fn)+
  have kv: "n_local_kv_heads a
      = (case ModelArgs.n_kv_heads args of None \<Rightarrow> n_heads args | Some k \<Rightarrow> k) div world_size"
    using f(2,6) by simp
  show "wf_Attention (nat (max_batch_size args)) (nat (max_seq_len args)) a"
    unfolding wf_Attention_def
    using c(1-4) c(5) c(6) f(5,10) kv fn wq wk wv ev nn rep
    by auto
qed

lemma TransformerBlock_init_fields:
  assumes "TransformerBlock_init lid args world_size w = Inr l"
  shows "feed_forward l = \<lparr>w1 = bw_w1 w, w2 = bw_w2 w, w3 = bw_w3 w\<rparr>"
    and "weight (attention_norm l) = bw_attention_norm w"
    and "weight (ffn_norm l) = bw_ffn_norm w"
    and "0 \<le> dim args"
  using assms unfolding TransformerBlock_init_def FeedForward_init_def RMSNorm_init_def
  by (auto simp: bind_err_Inr split: if_splits)

lemma init_layers_blocks:
  "init_layers args world_size w is = Inr ls \<Longrightarrow>
     \<forall>l \<in> set ls. \<exists>i. TransformerBlock_init (int i) args world_size (w i) = Inr l"
proof (induction "is" arbitrary: ls)
  case Nil
  then show ?case by simp
next
  case (Cons i "is")
  obtain l ls2 where
    l: "TransformerBlock_init (int i) args world_size (w i) = Inr l"
    and r: "init_layers args world_size w is = Inr ls2" and e: "ls = l # ls2"
    using Cons.prems by (auto simp: bind_err_Inr)
  show ?case using Cons.IH [OF r] l e by auto
qed

lemma Transformer_init_wf:
  assumes init: "Transformer_init ps world_size w = Inr tr"
    and fit: "weights_fit ps world_size w"
    and ev: "even (dim ps div n_heads ps)"
    and nn: "0 \<le> n_heads ps div world_size" "0 \<le> max_batch_size ps"
    and rep: "\<forall>l \<in> set (layers tr).
                n_local_heads (attention l) = n_local_kv_heads (attention l) * n_rep (attention l)"
  shows "wf_Transformer tr"
proof -
  note t = Transformer_init_Inr [OF init]
  have tr: "tok_embeddings tr = mw_tok_embeddings w" "output_linear tr = mw_output w"
    "weight (norm tr) = mw_norm w" "0 \<le> dim ps"
    using init unfolding Transformer_init_def RMSNorm_init_def
    by (auto simp: bind_err_Inr split: if_splits)
  have v: "0 \<le> vocab_size ps"
    using t(6) unfolding ParallelEmbedding_init_def
    by (auto simp: bind_err_Inr split: if_splits)
  note fw = fit [unfolded weights_fit_def Let_def]
  have blocks: "\<forall>l \<in> set (layers tr).
      wf_TransformerBlock (nat (max_batch_size ps)) (nat (max_seq_len ps)) (nat (dim ps))
        (dim ps div n_heads ps) l"
  proof
    fix l assume l: "l \<in> set (layers tr)"
    then obtain i where b: "TransformerBlock_init (int i) ps world_size (mw_layers w i) = Inr l"
      using init_layers_blocks [OF t(5)] by blast
    note a = TransformerBlock_init_Inr [OF b]
    note fl = TransformerBlock_init_fields [OF b]
    have r: "n_local_heads (attention l) = n_local_kv_heads (attention l) * n_rep (attention l)"
      using rep l by blast
    have wa: "wf_Attention (nat (max_batch_size ps)) (nat (max_seq_len ps)) (attention l)"
      and wo: "wo (attention l) = bw_wo (mw_layers w i)"
      using Attention_init_wf [OF a _ _ _ ev nn(1) r] fw by blast+
    show "wf_TransformerBlock (nat (max_batch_size ps)) (nat (max_seq_len ps)) (nat (dim ps))
        (dim ps div n_heads ps) l"
      unfolding wf_TransformerBlock_def
      using wa wo Attention_init_Inr(10) [OF a] fl fw by simp
  qed
  show ?thesis
    unfolding wf_Transformer_def Let_def t(1)
    using t(2,3,4) tr v nn(2) blocks fw by simp
qed

end
